theory Spec2Isabelle
  imports Complex_Main "HOL-Library.Sublist" "HOL-Library.Char_ord" "HOL-Library.List_Lexorder"
begin

section \<open>Data model (app/models.py)\<close>

text \<open>
  Python's \<open>Decimal\<close> is an exact decimal number: it is modelled by \<^typ>\<open>rat\<close>, so
  \<open>Decimal("299.99")\<close> is \<open>29999 / 100\<close>. A \<open>datetime\<close> is an integer count of
  microseconds. \<open>Optional[T]\<close> is \<open>T option\<close>; a row that has not been stored yet has
  the id \<open>None\<close>, as in the source (\<open>id: Optional[int] = Field(default=None, primary_key=True)\<close>).
  Strings are lists of characters.
\<close>

type_synonym decimal = rat
type_synonym datetime = int

datatype ProductStatus = ACTIVE | OUT_OF_STOCK | DISCONTINUED

record Category =
  cat_id :: "int option"
  cat_name :: string
  cat_description :: string
  cat_slug :: string
  cat_parent_id :: "int option"
  cat_is_active :: bool
  cat_created_at :: datetime

record Brand =
  br_id :: "int option"
  br_name :: string
  br_description :: string
  br_logo_url :: "string option"
  br_website_url :: "string option"
  br_is_active :: bool
  br_created_at :: datetime

record Product =
  p_id :: "int option"
  p_name :: string
  p_description :: string
  p_sku :: string
  p_price :: decimal
  p_original_price :: "decimal option"
  p_status :: ProductStatus
  p_category_id :: "int option"
  p_brand_id :: "int option"
  p_specifications :: "(string \<times> string) list"
  p_features :: "string list"
  p_stock_quantity :: int
  p_min_stock_level :: int
  p_slug :: string
  p_meta_title :: "string option"
  p_meta_description :: "string option"
  p_created_at :: datetime
  p_updated_at :: datetime

record ProductImage =
  img_id :: "int option"
  img_product_id :: "int option"
  img_image_url :: string
  img_alt_text :: string
  img_is_primary :: bool
  img_display_order :: int
  img_created_at :: datetime

record ProductFilter =
  f_category_id :: "int option"
  f_brand_id :: "int option"
  f_min_price :: "decimal option"
  f_max_price :: "decimal option"
  f_status :: "ProductStatus option"
  f_in_stock_only :: bool
  f_search_query :: "string option"

text \<open>
  \<open>ProductSummary.created_at\<close> is the ISO text of the timestamp; the summary of the
  model keeps the timestamp itself.
\<close>

record ProductSummary =
  s_id :: int
  s_name :: string
  s_price :: decimal
  s_original_price :: "decimal option"
  s_status :: ProductStatus
  s_primary_image_url :: "string option"
  s_category_name :: "string option"
  s_brand_name :: "string option"
  s_stock_quantity :: int
  s_created_at :: datetime

text \<open>The defaults of the model classes, with the fields a caller may override.\<close>

definition new_Category :: "string \<Rightarrow> string \<Rightarrow> string \<Rightarrow> datetime \<Rightarrow> Category" where
  "new_Category name slug description now =
     \<lparr>cat_id = None, cat_name = name, cat_description = description, cat_slug = slug,
      cat_parent_id = None, cat_is_active = True, cat_created_at = now\<rparr>"

definition new_Brand :: "string \<Rightarrow> string \<Rightarrow> datetime \<Rightarrow> Brand" where
  "new_Brand name description now =
     \<lparr>br_id = None, br_name = name, br_description = description, br_logo_url = None,
      br_website_url = None, br_is_active = True, br_created_at = now\<rparr>"

definition new_Product :: "string \<Rightarrow> string \<Rightarrow> string \<Rightarrow> decimal \<Rightarrow> decimal option \<Rightarrow> int option \<Rightarrow>
    int option \<Rightarrow> int \<Rightarrow> string \<Rightarrow> (string \<times> string) list \<Rightarrow> string list \<Rightarrow> datetime \<Rightarrow> datetime \<Rightarrow> Product" where
  "new_Product name description sku price original_price category_id brand_id stock_quantity slug
       specifications features now now' =
     \<lparr>p_id = None, p_name = name, p_description = description, p_sku = sku, p_price = price,
      p_original_price = original_price, p_status = ACTIVE, p_category_id = category_id,
      p_brand_id = brand_id, p_specifications = specifications, p_features = features,
      p_stock_quantity = stock_quantity, p_min_stock_level = 5, p_slug = slug,
      p_meta_title = None, p_meta_description = None, p_created_at = now, p_updated_at = now'\<rparr>"

definition new_ProductImage :: "int option \<Rightarrow> string \<Rightarrow> string \<Rightarrow> bool \<Rightarrow> datetime \<Rightarrow> ProductImage" where
  "new_ProductImage product_id image_url alt_text is_primary now =
     \<lparr>img_id = None, img_product_id = product_id, img_image_url = image_url,
      img_alt_text = alt_text, img_is_primary = is_primary, img_display_order = 0,
      img_created_at = now\<rparr>"

definition ProductFilter_default :: ProductFilter where
  "ProductFilter_default =
     \<lparr>f_category_id = None, f_brand_id = None, f_min_price = None, f_max_price = None,
      f_status = None, f_in_stock_only = False, f_search_query = None\<rparr>"

section \<open>The store\<close>

text \<open>
  The four tables, each a list of rows in the order of insertion, and the \<open>lower()\<close> of
  the store: the function on text that the store's locale (\<open>lc_ctype\<close>) gives it, with
  which ILIKE folds case. It is fixed when the store is created; no operation of the
  services changes it.
\<close>

record database =
  categories :: "Category list"
  brands :: "Brand list"
  products :: "Product list"
  product_images :: "ProductImage list"
  db_lower :: "string \<Rightarrow> string"

text \<open>The errors that the store raises: a violated constraint, and a parameter that does
  not fit its column type.\<close>

datatype error = IntegrityError | DataError

text \<open>\<open>lower()\<close> in the locale \<open>C\<close> folds the ASCII letters and nothing else; the stores of
  the examples have this locale.\<close>

definition ascii_lower :: "char \<Rightarrow> char" where
  "ascii_lower c =
     (case map_of (zip ''ABCDEFGHIJKLMNOPQRSTUVWXYZ'' ''abcdefghijklmnopqrstuvwxyz'') c of
        None \<Rightarrow> c | Some d \<Rightarrow> d)"

definition lower :: "string \<Rightarrow> string" where
  "lower s = map ascii_lower s"

definition empty_db :: database where
  "empty_db =
     \<lparr>categories = [], brands = [], products = [], product_images = [], db_lower = lower\<rparr>"

section \<open>The pattern match of ILIKE\<close>

text \<open>
  \<open>products.name ILIKE :search\<close> is the pattern match of SQL: in the pattern \<open>%\<close> stands
  for any run of characters, \<open>_\<close> for any one character, a backslash takes the next
  character literally, and every other character stands for itself. ILIKE applies the
  store's \<open>lower()\<close> to the pattern and to the text and then matches as LIKE does.
\<close>

fun like_match :: "string \<Rightarrow> string \<Rightarrow> bool" where
  "like_match [] s = (s = [])"
| "like_match (c # pat) s =
     (if c = CHR ''%'' then
        like_match pat s \<or> (case s of [] \<Rightarrow> False | _ # s' \<Rightarrow> like_match (c # pat) s')
      else if c = CHR ''_'' then
        (case s of [] \<Rightarrow> False | _ # s' \<Rightarrow> like_match pat s')
      else if c = CHR 0x5C then
        (case pat of [] \<Rightarrow> False
         | d # pat' \<Rightarrow> (case s of [] \<Rightarrow> False | x # s' \<Rightarrow> x = d \<and> like_match pat' s'))
      else
        (case s of [] \<Rightarrow> False | x # s' \<Rightarrow> x = c \<and> like_match pat s'))"

definition ilike :: "(string \<Rightarrow> string) \<Rightarrow> string \<Rightarrow> string \<Rightarrow> bool" where
  "ilike lower' s pat = like_match (lower' pat) (lower' s)"

section \<open>ProductService.get_products\<close>

text \<open>
  The conjunction of the \<open>where\<close> clauses that \<open>get_products\<close> appends. \<open>if filters:\<close>
  tests for \<open>None\<close> (a filter object is always truthy); \<open>if filters.search_query:\<close> is
  false for \<open>None\<close> and for the empty string.
\<close>

definition search_pattern :: "string \<Rightarrow> string" where
  "search_pattern search_query = ''%'' @ search_query @ ''%''"

definition where_clause :: "(string \<Rightarrow> string) \<Rightarrow> ProductFilter option \<Rightarrow> Product \<Rightarrow> bool" where
  "where_clause lower' filters p =
     (case filters of
        None \<Rightarrow> True
      | Some f \<Rightarrow>
          (case f_category_id f of None \<Rightarrow> True | Some c \<Rightarrow> p_category_id p = Some c) \<and>
          (case f_brand_id f of None \<Rightarrow> True | Some b \<Rightarrow> p_brand_id p = Some b) \<and>
          (case f_min_price f of None \<Rightarrow> True | Some m \<Rightarrow> p_price p \<ge> m) \<and>
          (case f_max_price f of None \<Rightarrow> True | Some m \<Rightarrow> p_price p \<le> m) \<and>
          (case f_status f of None \<Rightarrow> True | Some st \<Rightarrow> p_status p = st) \<and>
          (if f_in_stock_only f then p_stock_quantity p > 0 else True) \<and>
          (case f_search_query f of
             None \<Rightarrow> True
           | Some q \<Rightarrow>
               if q = [] then True
               else ilike lower' (p_name p) (search_pattern q) \<or>
                    ilike lower' (p_description p) (search_pattern q)))"

text \<open>
  \<open>ORDER BY products.created_at DESC\<close> names no second key, so the store is free in the
  order of rows with equal \<open>created_at\<close>, and free anew at every query. That freedom is
  the parameter \<open>scan\<close>: the store reads the matching rows in ascending \<open>scan\<close> and then
  sorts them, stably, by descending \<open>created_at\<close>.
\<close>

definition order_by_created_at_desc :: "(Product \<Rightarrow> int) \<Rightarrow> Product list \<Rightarrow> Product list" where
  "order_by_created_at_desc scan rows = sort_key (\<lambda>p. - p_created_at p) (sort_key scan rows)"

text \<open>
  The query of \<open>get_products\<close>. The two left outer joins follow a foreign key to a primary
  key, so they keep each product row once. \<open>limit\<close> and \<open>offset\<close> are natural numbers.
\<close>

definition products_query :: "(Product \<Rightarrow> int) \<Rightarrow> database \<Rightarrow> ProductFilter option \<Rightarrow> nat \<Rightarrow> nat \<Rightarrow> Product list" where
  "products_query scan db filters limit offset =
     take limit (drop offset (order_by_created_at_desc scan
        (filter (where_clause (db_lower db) filters) (products db))))"

text \<open>The dependent lookups made for each product of the page. The image query has
  \<open>limit(1)\<close> and no order: of several images flagged primary the store may return any;
  the model takes the first of the table.\<close>

definition primary_image :: "database \<Rightarrow> Product \<Rightarrow> ProductImage option" where
  "primary_image db product =
     find (\<lambda>im. img_product_id im = p_id product \<and> img_is_primary im) (product_images db)"

definition category_of :: "database \<Rightarrow> Product \<Rightarrow> Category option" where
  "category_of db product =
     (case p_category_id product of
        None \<Rightarrow> None
      | Some k \<Rightarrow> find (\<lambda>c. cat_id c = Some k) (categories db))"

definition brand_of :: "database \<Rightarrow> Product \<Rightarrow> Brand option" where
  "brand_of db product =
     (case p_brand_id product of
        None \<Rightarrow> None
      | Some k \<Rightarrow> find (\<lambda>b. br_id b = Some k) (brands db))"

definition to_summary :: "database \<Rightarrow> Product \<Rightarrow> ProductSummary" where
  "to_summary db product =
     \<lparr>s_id = (case p_id product of None \<Rightarrow> 0 | Some i \<Rightarrow> i),
      s_name = p_name product,
      s_price = p_price product,
      s_original_price = p_original_price product,
      s_status = p_status product,
      s_primary_image_url = map_option img_image_url (primary_image db product),
      s_category_name = map_option cat_name (category_of db product),
      s_brand_name = map_option br_name (brand_of db product),
      s_stock_quantity = p_stock_quantity product,
      s_created_at = p_created_at product\<rparr>"

definition get_products :: "(Product \<Rightarrow> int) \<Rightarrow> database \<Rightarrow> ProductFilter option \<Rightarrow> nat \<Rightarrow> nat \<Rightarrow> ProductSummary list" where
  "get_products scan db filters limit offset =
     map (to_summary db) (products_query scan db filters limit offset)"

definition search_products :: "(Product \<Rightarrow> int) \<Rightarrow> database \<Rightarrow> string \<Rightarrow> nat \<Rightarrow> ProductSummary list" where
  "search_products scan db query limit =
     get_products scan db
       (Some (ProductFilter_default\<lparr>f_search_query := Some query, f_status := Some ACTIVE\<rparr>)) limit 0"

definition get_featured_products :: "(Product \<Rightarrow> int) \<Rightarrow> database \<Rightarrow> nat \<Rightarrow> ProductSummary list" where
  "get_featured_products scan db limit =
     get_products scan db
       (Some (ProductFilter_default\<lparr>f_status := Some ACTIVE, f_in_stock_only := True,
                                   f_max_price := Some 200\<rparr>)) limit 0"

section \<open>The other read operations of the services\<close>





definition get_product_images :: "database \<Rightarrow> int \<Rightarrow> ProductImage list" where
  "get_product_images db product_id =
     sort_key img_display_order (filter (\<lambda>im. img_product_id im = Some product_id) (product_images db))"

text \<open>The result of \<open>get_price_range\<close> is a dictionary with the keys \<open>min\<close> and \<open>max\<close>.
  The column \<open>price\<close> is not nullable, so the test \<open>product.price is not None\<close> keeps every
  price.\<close>

definition get_price_range :: "database \<Rightarrow> (string \<rightharpoonup> decimal)" where
  "get_price_range db =
     (let products' = filter (\<lambda>p. p_status p = ACTIVE) (products db) in
      if products' = [] then [''min'' \<mapsto> 0, ''max'' \<mapsto> 1000]
      else
        let prices = map p_price products' in
        [''min'' \<mapsto> (if prices \<noteq> [] then Min (set prices) else 0),
         ''max'' \<mapsto> (if prices \<noteq> [] then Max (set prices) else 1000)])"

text \<open>
  Each entry of the two listings with counts is a dictionary with two keys, the row and
  its \<open>product_count\<close>; the model pairs them. \<open>Product.category_id == category.id\<close> is the
  equality of the two optional values (the query compares with \<open>IS NULL\<close> for \<open>None\<close>).
\<close>

definition get_categories_with_product_counts :: "database \<Rightarrow> (Category \<times> nat) list" where
  "get_categories_with_product_counts db =
     map (\<lambda>category.
            (category,
             length (filter (\<lambda>p. p_category_id p = cat_id category \<and> p_status p = ACTIVE) (products db))))
         (sort_key cat_name (filter cat_is_active (categories db)))"

definition get_brands_with_product_counts :: "database \<Rightarrow> (Brand \<times> nat) list" where
  "get_brands_with_product_counts db =
     map (\<lambda>brand.
            (brand,
             length (filter (\<lambda>p. p_brand_id p = br_id brand \<and> p_status p = ACTIVE) (products db))))
         (sort_key br_name (filter br_is_active (brands db)))"

text \<open>The main image of the detail page (\<open>ProductDetail._render_image_gallery\<close>): the
  first image flagged primary, else the first image; no image at all shows a placeholder.\<close>

definition gallery_main_image :: "ProductImage list \<Rightarrow> ProductImage option" where
  "gallery_main_image images =
     (case images of
        [] \<Rightarrow> None
      | first # _ \<Rightarrow> (case find img_is_primary images of None \<Rightarrow> Some first | Some im \<Rightarrow> Some im))"

section \<open>Writing to the store\<close>

text \<open>
  An insert gives the row an id that no row of the table has (here: one more than the
  largest id in use) and fails with \<open>IntegrityError\<close> when a \<open>unique\<close> column, a foreign
  key or a non-null column is violated. A commit inserts the added rows in the order they
  were added; when one insert fails, the commit raises and nothing of it is kept. The
  length limits of the text columns are not checked: every string of the seeder is within
  them.
\<close>

definition next_id :: "int option list \<Rightarrow> int" where
  "next_id ids = fold (\<lambda>i m. case i of None \<Rightarrow> m | Some k \<Rightarrow> max k m) ids 0 + 1"

definition insert_category :: "database \<Rightarrow> Category \<Rightarrow> error + Category \<times> database" where
  "insert_category db c =
     (if cat_name c \<in> set (map cat_name (categories db)) \<or>
         cat_slug c \<in> set (map cat_slug (categories db)) \<or>
         (cat_parent_id c \<noteq> None \<and> cat_parent_id c \<notin> set (map cat_id (categories db)))
      then Inl IntegrityError
      else
        let c' = c\<lparr>cat_id := Some (next_id (map cat_id (categories db)))\<rparr>
        in Inr (c', db\<lparr>categories := categories db @ [c']\<rparr>))"

definition insert_brand :: "database \<Rightarrow> Brand \<Rightarrow> error + Brand \<times> database" where
  "insert_brand db b =
     (if br_name b \<in> set (map br_name (brands db))
      then Inl IntegrityError
      else
        let b' = b\<lparr>br_id := Some (next_id (map br_id (brands db)))\<rparr>
        in Inr (b', db\<lparr>brands := brands db @ [b']\<rparr>))"

definition insert_product :: "database \<Rightarrow> Product \<Rightarrow> error + Product \<times> database" where
  "insert_product db p =
     (if p_sku p \<in> set (map p_sku (products db)) \<or>
         p_slug p \<in> set (map p_slug (products db)) \<or>
         (p_category_id p \<noteq> None \<and> p_category_id p \<notin> set (map cat_id (categories db))) \<or>
         (p_brand_id p \<noteq> None \<and> p_brand_id p \<notin> set (map br_id (brands db)))
      then Inl IntegrityError
      else
        let p' = p\<lparr>p_id := Some (next_id (map p_id (products db)))\<rparr>
        in Inr (p', db\<lparr>products := products db @ [p']\<rparr>))"

definition insert_image :: "database \<Rightarrow> ProductImage \<Rightarrow> error + ProductImage \<times> database" where
  "insert_image db im =
     (if img_product_id im = None \<or> img_product_id im \<notin> set (map p_id (products db))
      then Inl IntegrityError
      else
        let im' = im\<lparr>img_id := Some (next_id (map img_id (product_images db)))\<rparr>
        in Inr (im', db\<lparr>product_images := product_images db @ [im']\<rparr>))"

text \<open>\<open>session.add\<close> of each row followed by \<open>session.commit()\<close>: the stored rows, with
  their ids, and the new state; or the error, and the caller keeps the state it had.\<close>

fun commit :: "(database \<Rightarrow> 'r \<Rightarrow> error + 'r \<times> database) \<Rightarrow> 'r list \<Rightarrow> database \<Rightarrow> error + 'r list \<times> database" where
  "commit ins [] db = Inr ([], db)"
| "commit ins (r # rs) db =
     (case ins db r of
        Inl e \<Rightarrow> Inl e
      | Inr (r', db') \<Rightarrow>
          (case commit ins rs db' of
             Inl e \<Rightarrow> Inl e
           | Inr (rs', db'') \<Rightarrow> Inr (r' # rs', db'')))"

section \<open>DataSeederService.seed_sample_data\<close>

text \<open>
  Every model object reads the clock when it is built (\<open>default_factory=datetime.utcnow\<close>);
  \<open>clock k\<close> is the \<open>k\<close>-th reading made by one call of the seeder: readings 0 to 7 for the
  categories, 8 to 15 for the brands, two for each product (\<open>created_at\<close>, \<open>updated_at\<close>)
  from 16 on, and 32 to 39 for the images.
\<close>

definition cat_data_list :: "(string \<times> string \<times> string) list" where
  "cat_data_list =
     [(''Graphics Cards'', ''graphics-cards'', ''GPU cards for gaming performance''),
      (''Processors'', ''processors'', ''CPUs for gaming builds''),
      (''Memory'', ''memory'', ''RAM modules for gaming systems''),
      (''Storage'', ''storage'', ''SSDs and HDDs for games''),
      (''Motherboards'', ''motherboards'', ''Motherboards for gaming builds''),
      (''Power Supplies'', ''power-supplies'', ''PSUs for gaming systems''),
      (''Cases'', ''cases'', ''PC cases for gaming builds''),
      (''Peripherals'', ''peripherals'', ''Gaming keyboards, mice, and headsets'')]"

definition brand_data_list :: "(string \<times> string) list" where
  "brand_data_list =
     [(''NVIDIA'', ''Leading GPU manufacturer''),
      (''AMD'', ''CPU and GPU manufacturer''),
      (''Intel'', ''Leading CPU manufacturer''),
      (''Corsair'', ''Gaming hardware manufacturer''),
      (''ASUS'', ''Computer hardware manufacturer''),
      (''MSI'', ''Gaming hardware specialist''),
      (''Kingston'', ''Memory and storage solutions''),
      (''Seagate'', ''Storage solutions'')]"

definition products_data :: "Category list \<Rightarrow> Brand list \<Rightarrow> (datetime \<Rightarrow> datetime \<Rightarrow> Product) list" where
  "products_data categories' brands' =
     [new_Product ''RTX 4060 Gaming Graphics Card''
        ''Affordable gaming GPU with excellent 1080p performance. Features 8GB GDDR6 memory and ray tracing support.''
        ''RTX4060-8G'' (29999 / 100) (Some (34999 / 100))
        (cat_id (categories' ! 0)) (br_id (brands' ! 0)) 15
        ''rtx-4060-gaming-graphics-card''
        [(''Memory'', ''8GB GDDR6''), (''Memory Interface'', ''128-bit''),
         (''Base Clock'', ''1830 MHz''), (''Boost Clock'', ''2460 MHz''),
         (''CUDA Cores'', ''3072'')]
        [''Ray Tracing'', ''DLSS 3'', ''AV1 Encoding''],
      new_Product ''Ryzen 5 5600X Processor''
        ''6-core, 12-thread processor perfect for gaming. Excellent price-to-performance ratio.''
        ''R5-5600X'' (19999 / 100) (Some (22999 / 100))
        (cat_id (categories' ! 1)) (br_id (brands' ! 1)) 25
        ''ryzen-5-5600x-processor''
        [(''Cores'', ''6''), (''Threads'', ''12''), (''Base Clock'', ''3.7 GHz''),
         (''Boost Clock'', ''4.6 GHz''), (''Cache'', ''32MB L3''), (''TDP'', ''65W'')]
        [''PCIe 4.0'', ''DDR4 Support'', ''Unlocked Multiplier''],
      new_Product ''16GB DDR4-3200 Gaming Memory Kit''
        ''High-performance 16GB (2x8GB) DDR4 memory kit optimized for gaming.''
        ''DDR4-3200-16G'' (7999 / 100) (Some (9999 / 100))
        (cat_id (categories' ! 2)) (br_id (brands' ! 3)) 40
        ''16gb-ddr4-3200-gaming-memory''
        [(''Capacity'', ''16GB (2x8GB)''), (''Speed'', ''DDR4-3200''),
         (''Timing'', ''16-18-18-36''), (''Voltage'', ''1.35V'')]
        [''XMP 2.0'', ''Heat Spreaders'', ''Lifetime Warranty''],
      new_Product ''1TB NVMe SSD Gaming Drive''
        ''Fast 1TB NVMe SSD perfect for storing games and reducing load times.''
        ''NVME-1TB-GAME'' (8999 / 100) (Some (11999 / 100))
        (cat_id (categories' ! 3)) (br_id (brands' ! 6)) 30
        ''1tb-nvme-ssd-gaming-drive''
        [(''Capacity'', ''1TB''), (''Interface'', ''PCIe 3.0 x4''),
         (''Sequential Read'', ''2100 MB/s''), (''Sequential Write'', ''1700 MB/s''),
         (''Form Factor'', ''M.2 2280'')]
        [''NVMe 1.3'', ''3D NAND'', ''5-Year Warranty''],
      new_Product ''B550 Gaming Motherboard''
        ''AMD B550 chipset motherboard with PCIe 4.0 support and gaming features.''
        ''B550-GAMING'' (12999 / 100) (Some (15999 / 100))
        (cat_id (categories' ! 4)) (br_id (brands' ! 4)) 20
        ''b550-gaming-motherboard''
        [(''Socket'', ''AM4''), (''Chipset'', ''AMD B550''), (''Memory'', ''DDR4-4400 (O.C.)''),
         (''Expansion Slots'', ''PCIe 4.0 x16, PCIe 3.0 x16''), (''Form Factor'', ''ATX'')]
        [''PCIe 4.0'', ''USB 3.2 Gen2'', ''WiFi 6'', ''RGB Lighting''],
      new_Product ''650W 80+ Gold Gaming PSU''
        ''Fully modular 650W power supply with 80+ Gold efficiency rating.''
        ''PSU-650W-GOLD'' (9999 / 100) (Some (12999 / 100))
        (cat_id (categories' ! 5)) (br_id (brands' ! 3)) 18
        ''650w-80plus-gold-gaming-psu''
        [(''Wattage'', ''650W''), (''Efficiency'', ''80+ Gold''), (''Modular'', ''Fully Modular''),
         (''Fan Size'', ''140mm''), (''Dimensions'', ''150 x 86 x 160 mm'')]
        [''Zero RPM Mode'', ''Japanese Capacitors'', ''10-Year Warranty''],
      new_Product ''Mid-Tower Gaming Case''
        ''Stylish mid-tower case with tempered glass panel and RGB lighting.''
        ''CASE-MIDTOWER'' (7999 / 100) None
        (cat_id (categories' ! 6)) (br_id (brands' ! 5)) 12
        ''mid-tower-gaming-case''
        [(''Form Factor'', ''Mid-Tower''), (''Material'', ''Steel, Tempered Glass''),
         (''Motherboard Support'', ''ATX, mATX, Mini-ITX''), (''GPU Clearance'', ''370mm''),
         (''CPU Cooler Height'', ''165mm'')]
        [''Tempered Glass'', ''RGB Lighting'', ''Tool-free Installation''],
      new_Product ''Mechanical Gaming Keyboard''
        ''RGB mechanical gaming keyboard with Cherry MX switches.''
        ''KB-MECH-RGB'' (8999 / 100) (Some (10999 / 100))
        (cat_id (categories' ! 7)) (br_id (brands' ! 3)) 35
        ''mechanical-gaming-keyboard''
        [(''Switch Type'', ''Cherry MX Red''), (''Backlighting'', ''RGB per-key''),
         (''Layout'', ''Full-size''), (''Connection'', ''USB-C''), (''Polling Rate'', ''1000Hz'')]
        [''N-Key Rollover'', ''Media Controls'', ''Software Customization'']]"

definition sample_images :: "Product list \<Rightarrow> (datetime \<Rightarrow> ProductImage) list" where
  "sample_images products' =
     [new_ProductImage (p_id (products' ! 0))
        ''https://images.unsplash.com/photo-1591488320449-011701bb6704?w=400''
        ''RTX 4060 Graphics Card'' True,
      new_ProductImage (p_id (products' ! 1))
        ''https://images.unsplash.com/photo-1555617981-dac3880eac6e?w=400''
        ''AMD Ryzen Processor'' True,
      new_ProductImage (p_id (products' ! 2))
        ''https://images.unsplash.com/photo-1562976540-1502c2145186?w=400''
        ''DDR4 Memory Modules'' True,
      new_ProductImage (p_id (products' ! 3))
        ''https://images.unsplash.com/photo-1597872200969-2b65d56bd16b?w=400''
        ''NVMe SSD Drive'' True,
      new_ProductImage (p_id (products' ! 4))
        ''https://images.unsplash.com/photo-1518717758536-85ae29035b6d?w=400''
        ''Gaming Motherboard'' True,
      new_ProductImage (p_id (products' ! 5))
        ''https://images.unsplash.com/photo-1609694740799-82d2c0b2fcd8?w=400''
        ''Power Supply Unit'' True,
      new_ProductImage (p_id (products' ! 6))
        ''https://images.unsplash.com/photo-1587202372634-32705e3bf49c?w=400''
        ''Gaming PC Case'' True,
      new_ProductImage (p_id (products' ! 7))
        ''https://images.unsplash.com/photo-1541140532154-b024d705b90a?w=400''
        ''Mechanical Gaming Keyboard'' True]"

text \<open>The rows built by the four loops of the seeder, before they are stored.\<close>

definition category_rows :: "(nat \<Rightarrow> datetime) \<Rightarrow> Category list" where
  "category_rows clock =
     map (\<lambda>(k, name, slug, description). new_Category name slug description (clock k))
       (enumerate 0 cat_data_list)"

definition brand_rows :: "(nat \<Rightarrow> datetime) \<Rightarrow> Brand list" where
  "brand_rows clock =
     map (\<lambda>(k, name, description). new_Brand name description (clock (8 + k)))
       (enumerate 0 brand_data_list)"

definition product_rows :: "(nat \<Rightarrow> datetime) \<Rightarrow> Category list \<Rightarrow> Brand list \<Rightarrow> Product list" where
  "product_rows clock categories' brands' =
     map (\<lambda>(k, product_data). product_data (clock (16 + 2 * k)) (clock (17 + 2 * k)))
       (enumerate 0 (products_data categories' brands'))"

definition image_rows :: "(nat \<Rightarrow> datetime) \<Rightarrow> Product list \<Rightarrow> ProductImage list" where
  "image_rows clock products' =
     map (\<lambda>(k, img_data). img_data (clock (32 + k))) (enumerate 0 (sample_images products'))"

text \<open>
  The seeder returns nothing; the model returns the error it raised, if any, and the
  state of the store it leaves. The lists \<open>categories'\<close>, \<open>brands'\<close> and \<open>products'\<close> hold the
  stored rows, with their ids, after each commit; each has eight rows, so every index
  the seeder uses is in range.
\<close>

definition seed_sample_data :: "(nat \<Rightarrow> datetime) \<Rightarrow> database \<Rightarrow> (error + unit) \<times> database" where
  "seed_sample_data clock db =
     (if products db \<noteq> [] then (Inr (), db)
      else
        case commit insert_category (category_rows clock) db of
          Inl e \<Rightarrow> (Inl e, db)
        | Inr (categories', db1) \<Rightarrow>
            (case commit insert_brand (brand_rows clock) db1 of
               Inl e \<Rightarrow> (Inl e, db1)
             | Inr (brands', db2) \<Rightarrow>
                 (case commit insert_product (product_rows clock categories' brands') db2 of
                    Inl e \<Rightarrow> (Inl e, db2)
                  | Inr (products', db3) \<Rightarrow>
                      (case commit insert_image (image_rows clock products') db3 of
                         Inl e \<Rightarrow> (Inl e, db3)
                       | Inr (images, db4) \<Rightarrow> (Inr (), db4)))))"

section \<open>Example data\<close>

text \<open>
  A small catalog: one category, one brand, an active memory kit whose only image is not
  flagged primary, and a discontinued fan created at the same instant as the kit.
\<close>

definition memory_category :: Category where
  "memory_category = (new_Category ''Memory'' ''memory'' ''RAM modules'' 10)\<lparr>cat_id := Some 1\<rparr>"

definition corsair :: Brand where
  "corsair = (new_Brand ''Corsair'' ''Gaming hardware'' 20)\<lparr>br_id := Some 1\<rparr>"

definition memory_kit :: Product where
  "memory_kit =
     (new_Product ''16GB DDR4 Kit'' ''Fast memory'' ''DDR4-16G'' (7999 / 100) None (Some 1) (Some 1) 40
        ''16gb-ddr4-kit'' [] [] 100 100)\<lparr>p_id := Some 1\<rparr>"

definition old_fan :: Product where
  "old_fan =
     (new_Product ''Old Fan'' ''Case fan'' ''FAN-1'' 50 None (Some 1) None 0
        ''old-fan'' [] [] 100 100)\<lparr>p_id := Some 2, p_status := DISCONTINUED\<rparr>"

definition kit_image :: ProductImage where
  "kit_image =
     (new_ProductImage (Some 1) ''https://example.com/kit.png'' ''Memory kit'' False 100)\<lparr>img_id := Some 1\<rparr>"

definition example_db :: database where
  "example_db =
     \<lparr>categories = [memory_category], brands = [corsair],
      products = [memory_kit, old_fan], product_images = [kit_image], db_lower = lower\<rparr>"

definition discontinued_only_db :: database where
  "discontinued_only_db =
     \<lparr>categories = [memory_category], brands = [corsair], products = [old_fan],
      product_images = [], db_lower = lower\<rparr>"

definition example_filter :: ProductFilter where
  "example_filter =
     \<lparr>f_category_id = Some 1, f_brand_id = Some 1, f_min_price = Some 50, f_max_price = Some 100,
      f_status = Some ACTIVE, f_in_stock_only = True, f_search_query = Some ''ddr4''\<rparr>"

text \<open>A catalog of six products, stored in the order of their ids 1 to 6 and all created
  at the same instant.\<close>

definition tied_product :: "int \<Rightarrow> Product" where
  "tied_product i =
     (new_Product ''Part'' ''One of six'' (replicate (nat i) CHR ''a'') 10 None None None 1
        (replicate (nat i) CHR ''a'') [] [] 100 100)\<lparr>p_id := Some i\<rparr>"

definition tied_db :: database where
  "tied_db =
     \<lparr>categories = [], brands = [], products = map tied_product [1, 2, 3, 4, 5, 6],
      product_images = [], db_lower = lower\<rparr>"

text \<open>Ways a store may read rows that the \<open>ORDER BY\<close> leaves tied: in the order of the
  table, by ascending id, by descending id, and in the order of the table with the first
  two rows exchanged.\<close>

definition table_order :: "Product \<Rightarrow> int" where
  "table_order p = 0"

definition ascending_id :: "Product \<Rightarrow> int" where
  "ascending_id p = (case p_id p of None \<Rightarrow> 0 | Some i \<Rightarrow> i)"

definition descending_id :: "Product \<Rightarrow> int" where
  "descending_id p = - ascending_id p"

definition second_row_first :: "Product \<Rightarrow> int" where
  "second_row_first p =
     (if p_id p = Some 2 then 0 else if p_id p = Some 1 then 1 else ascending_id p)"

text \<open>The primary key of the products table: every stored row has an id, and no two rows
  share one.\<close>

definition products_primary_key :: "database \<Rightarrow> bool" where
  "products_primary_key db \<longleftrightarrow>
     None \<notin> set (map p_id (products db)) \<and> distinct (map p_id (products db))"

text \<open>The seeded store of the examples, and the filter of the example scenario
  (\<open>in_stock_only=true, max_price=200.00\<close>).\<close>

definition seed_clock :: "nat \<Rightarrow> datetime" where
  "seed_clock k = 1000 * int k"

definition seeded_db :: database where
  "seeded_db = snd (seed_sample_data seed_clock empty_db)"

definition in_stock_max_200 :: ProductFilter where
  "in_stock_max_200 = ProductFilter_default\<lparr>f_in_stock_only := True, f_max_price := Some 200\<rparr>"


section \<open>Properties\<close>

lemmas example_defs = example_db_def discontinued_only_db_def tied_db_def tied_product_def memory_category_def corsair_def
  memory_kit_def old_fan_def kit_image_def example_filter_def
  new_Category_def new_Brand_def new_Product_def new_ProductImage_def
  table_order_def ascending_id_def descending_id_def second_row_first_def

lemmas query_defs = get_products_def products_query_def order_by_created_at_desc_def
  where_clause_def to_summary_def primary_image_def category_of_def brand_of_def
  ilike_def lower_def ascii_lower_def search_pattern_def

subsection \<open>Filtering\<close>

lemma products_query_subset:
  "set (products_query scan db filters limit offset) \<subseteq> {p \<in> set (products db). where_clause (db_lower db) filters p}"
proof -
  have "set (products_query scan db filters limit offset)
          \<subseteq> set (order_by_created_at_desc scan (filter (where_clause (db_lower db) filters) (products db)))"
    unfolding products_query_def by (meson set_take_subset set_drop_subset subset_trans)
  then show ?thesis by (auto simp: order_by_created_at_desc_def)
qed

text \<open>
  C1. Every summary returned by \<open>get_products\<close> for a filter satisfies each predicate the
  filter sets: the price is at least \<open>min_price\<close> and at most \<open>max_price\<close>, the stock is
  positive under \<open>in_stock_only\<close>, the status is the filter's, and the summary is that of a
  product of the store whose category and brand are the filter's. This holds for every
  limit and offset and however the store orders tied rows.
\<close>

theorem get_products_satisfy_filter:
  assumes "s \<in> set (get_products scan db (Some f) limit offset)"
  shows "(\<forall>m. f_min_price f = Some m \<longrightarrow> m \<le> s_price s) \<and>
         (\<forall>m. f_max_price f = Some m \<longrightarrow> s_price s \<le> m) \<and>
         (f_in_stock_only f \<longrightarrow> 0 < s_stock_quantity s) \<and>
         (\<forall>st. f_status f = Some st \<longrightarrow> s_status s = st) \<and>
         (\<exists>p \<in> set (products db). s = to_summary db p \<and>
            (\<forall>c. f_category_id f = Some c \<longrightarrow> p_category_id p = Some c) \<and>
            (\<forall>b. f_brand_id f = Some b \<longrightarrow> p_brand_id p = Some b))"
proof -
  from assms obtain p where p: "p \<in> set (products_query scan db (Some f) limit offset)"
    and s: "s = to_summary db p"
    by (auto simp: get_products_def)
  from p products_query_subset have mem: "p \<in> set (products db)" and w: "where_clause (db_lower db) (Some f) p"
    by blast+
  from w have "(\<forall>m. f_min_price f = Some m \<longrightarrow> m \<le> p_price p)"
    and "(\<forall>m. f_max_price f = Some m \<longrightarrow> p_price p \<le> m)"
    and "f_in_stock_only f \<longrightarrow> 0 < p_stock_quantity p"
    and "(\<forall>st. f_status f = Some st \<longrightarrow> p_status p = st)"
    and "(\<forall>c. f_category_id f = Some c \<longrightarrow> p_category_id p = Some c)"
    and "(\<forall>b. f_brand_id f = Some b \<longrightarrow> p_brand_id p = Some b)"
    by (simp_all add: where_clause_def split: option.splits if_splits)
  with mem s show ?thesis
    by (auto simp: to_summary_def)
qed

theorem get_products_satisfy_filter_witness:
  "to_summary example_db memory_kit \<in> set (get_products table_order example_db (Some example_filter) 20 0) \<and>
   50 \<le> s_price (to_summary example_db memory_kit) \<and>
   s_price (to_summary example_db memory_kit) \<le> 100 \<and>
   0 < s_stock_quantity (to_summary example_db memory_kit) \<and>
   s_status (to_summary example_db memory_kit) = ACTIVE"
proof -
  have h: "to_summary example_db memory_kit \<in> set (get_products table_order example_db (Some example_filter) 20 0)"
    by (simp add: query_defs example_defs)
  show ?thesis
    using h get_products_satisfy_filter [OF h] by (simp add: example_filter_def)
qed

subsection \<open>Lookups by id\<close>




subsection \<open>Product counts\<close>

lemma status_split_count:
  "length (filter (\<lambda>p. P p \<and> p_status p = ACTIVE) ps) +
   length (filter (\<lambda>p. P p \<and> (p_status p = OUT_OF_STOCK \<or> p_status p = DISCONTINUED)) ps) =
   length (filter P ps)"
proof (induction ps)
  case Nil
  show ?case by simp
next
  case (Cons p ps)
  then show ?case by (cases "p_status p") auto
qed

text \<open>
  C10. The \<open>product_count\<close> attached to a category (to a brand) is the number of products
  of that category (brand) whose status is \<open>ACTIVE\<close>: the products of the entity with status
  \<open>OUT_OF_STOCK\<close> or \<open>DISCONTINUED\<close> are exactly those left out of the count.
\<close>

theorem product_count_counts_active_only:
  "((c, n) \<in> set (get_categories_with_product_counts db) \<longrightarrow>
      n = length (filter (\<lambda>p. p_category_id p = cat_id c \<and> p_status p = ACTIVE) (products db)) \<and>
      n + length (filter (\<lambda>p. p_category_id p = cat_id c \<and>
                              (p_status p = OUT_OF_STOCK \<or> p_status p = DISCONTINUED)) (products db)) =
        length (filter (\<lambda>p. p_category_id p = cat_id c) (products db))) \<and>
   ((b, m) \<in> set (get_brands_with_product_counts db) \<longrightarrow>
      m = length (filter (\<lambda>p. p_brand_id p = br_id b \<and> p_status p = ACTIVE) (products db)) \<and>
      m + length (filter (\<lambda>p. p_brand_id p = br_id b \<and>
                              (p_status p = OUT_OF_STOCK \<or> p_status p = DISCONTINUED)) (products db)) =
        length (filter (\<lambda>p. p_brand_id p = br_id b) (products db)))"
proof (intro conjI impI)
  assume "(c, n) \<in> set (get_categories_with_product_counts db)"
  then show n: "n = length (filter (\<lambda>p. p_category_id p = cat_id c \<and> p_status p = ACTIVE) (products db))"
    by (auto simp: get_categories_with_product_counts_def)
  show "n + length (filter (\<lambda>p. p_category_id p = cat_id c \<and>
                              (p_status p = OUT_OF_STOCK \<or> p_status p = DISCONTINUED)) (products db)) =
        length (filter (\<lambda>p. p_category_id p = cat_id c) (products db))"
    unfolding n by (rule status_split_count)
next
  assume "(b, m) \<in> set (get_brands_with_product_counts db)"
  then show m: "m = length (filter (\<lambda>p. p_brand_id p = br_id b \<and> p_status p = ACTIVE) (products db))"
    by (auto simp: get_brands_with_product_counts_def)
  show "m + length (filter (\<lambda>p. p_brand_id p = br_id b \<and>
                              (p_status p = OUT_OF_STOCK \<or> p_status p = DISCONTINUED)) (products db)) =
        length (filter (\<lambda>p. p_brand_id p = br_id b) (products db))"
    unfolding m by (rule status_split_count)
qed

theorem product_count_counts_active_only_witness:
  "(memory_category, 1) \<in> set (get_categories_with_product_counts example_db) \<and>
   (corsair, 1) \<in> set (get_brands_with_product_counts example_db) \<and>
   length (filter (\<lambda>p. p_category_id p = cat_id memory_category) (products example_db)) = 2 \<and>
   length (filter (\<lambda>p. p_category_id p = cat_id memory_category \<and>
                        (p_status p = OUT_OF_STOCK \<or> p_status p = DISCONTINUED)) (products example_db)) = 1"
proof -
  have h1: "(memory_category, 1) \<in> set (get_categories_with_product_counts example_db)"
    by (simp add: get_categories_with_product_counts_def example_defs)
  have h2: "(corsair, 1) \<in> set (get_brands_with_product_counts example_db)"
    by (simp add: get_brands_with_product_counts_def example_defs)
  have "length (filter (\<lambda>p. p_category_id p = cat_id memory_category \<and>
                        (p_status p = OUT_OF_STOCK \<or> p_status p = DISCONTINUED)) (products example_db)) = 1"
    by (simp add: example_defs)
  with h1 h2 product_count_counts_active_only [of memory_category 1 example_db corsair 1]
  show ?thesis by simp
qed

subsection \<open>The primary image of a summary\<close>

text \<open>
  C2, as stated, fails: the memory kit of the example has one image, not flagged primary,
  and its summary has no image URL.
\<close>

theorem summary_image_counterexample:
  "get_product_images example_db 1 = [kit_image] \<and>
   \<not> img_is_primary kit_image \<and>
   s_id (get_products table_order example_db None 20 0 ! 0) = 1 \<and>
   s_primary_image_url (get_products table_order example_db None 20 0 ! 0) = None \<and>
   s_primary_image_url (get_products table_order example_db None 20 0 ! 0) \<noteq> Some (img_image_url kit_image)"
  by (simp add: get_product_images_def query_defs example_defs)

text \<open>
  C2, amended. For every product of the page none of whose images is flagged
  \<open>is_primary\<close>, the summary that \<open>get_products\<close> returns for it has no
  \<open>primary_image_url\<close> (\<open>None\<close>), whether or not the product has images.
\<close>

theorem summary_without_primary_image:
  assumes "p \<in> set (products_query scan db filters limit offset)"
    and "\<forall>im \<in> set (product_images db). img_product_id im = p_id p \<longrightarrow> \<not> img_is_primary im"
  shows "to_summary db p \<in> set (get_products scan db filters limit offset) \<and>
         s_primary_image_url (to_summary db p) = None"
proof
  from assms(1) show "to_summary db p \<in> set (get_products scan db filters limit offset)"
    by (simp add: get_products_def)
  from assms(2) have "primary_image db p = None"
    by (auto simp: primary_image_def find_None_iff)
  then show "s_primary_image_url (to_summary db p) = None"
    by (simp add: to_summary_def)
qed

theorem summary_without_primary_image_witness:
  "memory_kit \<in> set (products_query table_order example_db None 20 0) \<and>
   filter img_is_primary (product_images example_db) = [] \<and>
   to_summary example_db memory_kit \<in> set (get_products table_order example_db None 20 0) \<and>
   s_primary_image_url (to_summary example_db memory_kit) = None"
proof -
  have h1: "memory_kit \<in> set (products_query table_order example_db None 20 0)"
    by (simp add: query_defs example_defs)
  have h2: "\<forall>im \<in> set (product_images example_db). img_product_id im = p_id memory_kit \<longrightarrow> \<not> img_is_primary im"
    by (simp add: example_defs)
  have "filter img_is_primary (product_images example_db) = []"
    by (simp add: example_defs)
  with h1 summary_without_primary_image [OF h1 h2] show ?thesis by blast
qed

text \<open>The fallback to the first image is made by the gallery of the detail page.\<close>

lemma gallery_falls_back_to_first_image:
  assumes "images \<noteq> []" and "\<forall>im \<in> set images. \<not> img_is_primary im"
  shows "gallery_main_image images = Some (hd images)"
proof -
  from assms(2) have "find img_is_primary images = None"
    by (simp add: find_None_iff)
  with assms(1) show ?thesis
    by (cases images) (simp_all add: gallery_main_image_def)
qed

subsection \<open>Price range\<close>

text \<open>
  C3, as stated, fails: a catalog whose only product is discontinued is not empty, and
  \<open>get_price_range\<close> returns 0 and 1000 for it, neither of them the price of a product.
\<close>

theorem price_range_counterexample:
  "products discontinued_only_db = [old_fan] \<and> p_price old_fan = 50 \<and>
   get_price_range discontinued_only_db ''min'' = Some 0 \<and>
   get_price_range discontinued_only_db ''max'' = Some 1000"
  by (simp add: get_price_range_def example_defs)

text \<open>
  C3, amended. \<open>get_price_range\<close> returns \<open>{min: 0, max: 1000}\<close> when the catalog has no
  product, and more generally when it has no \<open>ACTIVE\<close> product; on every catalog with an
  active product it returns \<open>min \<le> max\<close>, both of them prices of active products of the
  catalog, and every active price lies between them.
\<close>

theorem price_range_of_active_products:
  "(products db = [] \<longrightarrow> get_price_range db = [''min'' \<mapsto> 0, ''max'' \<mapsto> 1000]) \<and>
   (filter (\<lambda>p. p_status p = ACTIVE) (products db) = [] \<longrightarrow>
      get_price_range db = [''min'' \<mapsto> 0, ''max'' \<mapsto> 1000]) \<and>
   (filter (\<lambda>p. p_status p = ACTIVE) (products db) \<noteq> [] \<longrightarrow>
      (\<exists>lo hi. get_price_range db = [''min'' \<mapsto> lo, ''max'' \<mapsto> hi] \<and> lo \<le> hi \<and>
         lo \<in> p_price ` {p \<in> set (products db). p_status p = ACTIVE} \<and>
         hi \<in> p_price ` {p \<in> set (products db). p_status p = ACTIVE} \<and>
         (\<forall>p \<in> set (products db). p_status p = ACTIVE \<longrightarrow> lo \<le> p_price p \<and> p_price p \<le> hi)))"
proof (intro conjI impI)
  assume "products db = []"
  then show "get_price_range db = [''min'' \<mapsto> 0, ''max'' \<mapsto> 1000]"
    by (simp add: get_price_range_def)
next
  assume "filter (\<lambda>p. p_status p = ACTIVE) (products db) = []"
  then show "get_price_range db = [''min'' \<mapsto> 0, ''max'' \<mapsto> 1000]"
    by (simp add: get_price_range_def)
next
  let ?act = "filter (\<lambda>p. p_status p = ACTIVE) (products db)"
  let ?S = "set (map p_price ?act)"
  assume ne: "?act \<noteq> []"
  then have S: "finite ?S" "?S \<noteq> {}" by (auto simp: filter_empty_conv)
  have eq: "?S = p_price ` {p \<in> set (products db). p_status p = ACTIVE}" by auto
  have r: "get_price_range db = [''min'' \<mapsto> Min ?S, ''max'' \<mapsto> Max ?S]"
    using ne by (simp add: get_price_range_def Let_def)
  have mm: "Min ?S \<in> ?S" "Max ?S \<in> ?S" using S by (rule Min_in, rule Max_in)
  have "Min ?S \<le> Max ?S" using S(1) mm(1) by (rule Max_ge)
  moreover note mm
  moreover have "\<forall>p \<in> set (products db). p_status p = ACTIVE \<longrightarrow> Min ?S \<le> p_price p \<and> p_price p \<le> Max ?S"
    using S(1) by (auto intro!: Min_le Max_ge)
  ultimately show "\<exists>lo hi. get_price_range db = [''min'' \<mapsto> lo, ''max'' \<mapsto> hi] \<and> lo \<le> hi \<and>
         lo \<in> p_price ` {p \<in> set (products db). p_status p = ACTIVE} \<and>
         hi \<in> p_price ` {p \<in> set (products db). p_status p = ACTIVE} \<and>
         (\<forall>p \<in> set (products db). p_status p = ACTIVE \<longrightarrow> lo \<le> p_price p \<and> p_price p \<le> hi)"
    using r unfolding eq by blast
qed

theorem price_range_of_active_products_witness:
  "products empty_db = [] \<and> get_price_range empty_db = [''min'' \<mapsto> 0, ''max'' \<mapsto> 1000] \<and>
   filter (\<lambda>p. p_status p = ACTIVE) (products example_db) \<noteq> [] \<and>
   (\<exists>lo hi. get_price_range example_db = [''min'' \<mapsto> lo, ''max'' \<mapsto> hi] \<and> lo \<le> hi \<and>
      lo \<in> p_price ` {p \<in> set (products example_db). p_status p = ACTIVE} \<and>
      hi \<in> p_price ` {p \<in> set (products example_db). p_status p = ACTIVE})"
proof -
  have h1: "products empty_db = []"
    by (simp add: empty_db_def)
  have h2: "filter (\<lambda>p. p_status p = ACTIVE) (products example_db) \<noteq> []"
    by (simp add: example_defs)
  from h1 h2 price_range_of_active_products [of empty_db] price_range_of_active_products [of example_db]
  show ?thesis by blast
qed

subsection \<open>Pagination\<close>

lemma disjoint_windows:
  assumes "distinct ys" and "O1 + L \<le> O2"
  shows "set (take L (drop O1 ys)) \<inter> set (take L (drop O2 ys)) = {}"
proof -
  have "take L (drop O1 ys) = drop O1 (take (L + O1) ys)"
    by (simp add: take_drop)
  then have "set (take L (drop O1 ys)) \<subseteq> set (take (L + O1) ys)"
    by (simp add: set_drop_subset)
  also have "\<dots> \<subseteq> set (take O2 ys)"
    using assms(2) by (intro set_take_subset_set_take) simp
  finally have a: "set (take L (drop O1 ys)) \<subseteq> set (take O2 ys)" .
  have b: "set (take L (drop O2 ys)) \<subseteq> set (drop O2 ys)"
    by (rule set_take_subset)
  have "set (take O2 ys) \<inter> set (drop O2 ys) = {}"
    using assms(1) by (intro set_take_disj_set_drop_if_distinct) simp_all
  with a b show ?thesis by blast
qed

lemma order_independent_of_scan:
  assumes "distinct (map p_created_at rows)"
  shows "order_by_created_at_desc scan1 rows = order_by_created_at_desc scan2 rows"
proof -
  let ?key = "\<lambda>p. - p_created_at p"
  let ?xs = "order_by_created_at_desc scan1 rows" and ?ys = "order_by_created_at_desc scan2 rows"
  from assms have d: "distinct rows" and inj: "inj_on p_created_at (set rows)"
    by (simp_all add: distinct_map)
  from inj have injk: "inj_on ?key (set rows)"
    by (auto simp: inj_on_def)
  have sets: "set ?xs = set rows" "set ?ys = set rows"
    by (simp_all add: order_by_created_at_desc_def)
  have dist: "distinct ?xs" "distinct ?ys"
    using d by (simp_all add: order_by_created_at_desc_def)
  show ?thesis
  proof (rule map_sorted_distinct_set_unique [where f = ?key])
    show "inj_on ?key (set ?xs \<union> set ?ys)" using injk sets by simp
    show "sorted (map ?key ?xs)" "sorted (map ?key ?ys)"
      by (simp_all add: order_by_created_at_desc_def)
    show "distinct (map ?key ?xs)" "distinct (map ?key ?ys)"
      using dist injk sets by (simp_all add: distinct_map)
    show "set ?xs = set ?ys" using sets by simp
  qed
qed

lemma summary_ids_distinct:
  assumes "products_primary_key db"
  shows "distinct (map (s_id \<circ> to_summary db)
           (order_by_created_at_desc scan (filter (where_clause (db_lower db) filters) (products db))))"
proof -
  let ?g = "\<lambda>p. case p_id p of None \<Rightarrow> (0::int) | Some i \<Rightarrow> i"
  have g: "s_id \<circ> to_summary db = ?g"
    by (auto simp: to_summary_def)
  from assms have d: "distinct (products db)" and inj: "inj_on p_id (set (products db))"
    and nn: "\<forall>p \<in> set (products db). p_id p \<noteq> None"
    by (force simp: products_primary_key_def distinct_map)+
  have "inj_on ?g (set (products db))"
  proof (rule inj_onI)
    fix p q assume "p \<in> set (products db)" "q \<in> set (products db)" "?g p = ?g q"
    with nn have "p_id p = p_id q" by (auto split: option.splits)
    with inj \<open>p \<in> _\<close> \<open>q \<in> _\<close> show "p = q" by (auto dest: inj_onD)
  qed
  then have "inj_on ?g (set (order_by_created_at_desc scan (filter (where_clause (db_lower db) filters) (products db))))"
    by (rule inj_on_subset) (auto simp: order_by_created_at_desc_def)
  moreover have "distinct (order_by_created_at_desc scan (filter (where_clause (db_lower db) filters) (products db)))"
    using d by (simp add: order_by_created_at_desc_def)
  ultimately show ?thesis
    unfolding g by (simp add: distinct_map)
qed

text \<open>
  C7 at six products created at the same instant. The query sorts by \<open>created_at\<close> alone,
  so the store decides the order of the six at each query. When it yields them in the
  order of the table for the first page (limit 1, offset 0), and with the first two
  exchanged for the second page (limit 1, offset 1), as a sort that keeps only the first
  \<open>limit + offset\<close> rows does, both pages hold product 1, although the windows \<open>[0, 1)\<close>
  and \<open>[1, 2)\<close> do not overlap.
\<close>

theorem pages_overlap_on_ties:
  "products_primary_key tied_db \<and>
   map p_created_at (products tied_db) = [100, 100, 100, 100, 100, 100] \<and>
   map s_id (get_products table_order tied_db None 1 0) = [1] \<and>
   map s_id (get_products second_row_first tied_db None 1 1) = [1]"
  by (simp add: products_primary_key_def query_defs example_defs)

text \<open>
  Without ties the defect does not show: when the products that match the filter have
  pairwise distinct \<open>created_at\<close> (or when the store orders tied rows in the same way for
  both queries), pages with windows that do not overlap have disjoint sets of ids.
\<close>

lemma pages_disjoint:
  assumes "products_primary_key db"
    and "scan1 = scan2 \<or> distinct (map p_created_at (filter (where_clause (db_lower db) filters) (products db)))"
    and "O1 + L \<le> O2 \<or> O2 + L \<le> O1"
  shows "set (map s_id (get_products scan1 db filters L O1)) \<inter>
         set (map s_id (get_products scan2 db filters L O2)) = {}"
proof -
  let ?rows = "filter (where_clause (db_lower db) filters) (products db)"
  let ?xs = "order_by_created_at_desc scan1 ?rows"
  let ?ys = "map (s_id \<circ> to_summary db) ?xs"
  from assms(2) have same: "order_by_created_at_desc scan2 ?rows = ?xs"
    using order_independent_of_scan [of ?rows scan2 scan1] by auto
  have page: "map s_id (get_products scan db filters L off) =
      take L (drop off (map (s_id \<circ> to_summary db) (order_by_created_at_desc scan ?rows)))" for scan off
    by (simp add: get_products_def products_query_def take_map drop_map)
  have d: "distinct ?ys"
    using assms(1) by (rule summary_ids_distinct)
  from assms(3) have "set (take L (drop O1 ?ys)) \<inter> set (take L (drop O2 ?ys)) = {}"
  proof
    assume "O1 + L \<le> O2"
    with d show ?thesis by (rule disjoint_windows)
  next
    assume "O2 + L \<le> O1"
    with d have "set (take L (drop O2 ?ys)) \<inter> set (take L (drop O1 ?ys)) = {}"
      by (rule disjoint_windows)
    then show ?thesis by blast
  qed
  then show ?thesis
    by (simp only: page same)
qed

subsection \<open>Search\<close>

lemma like_match_percent: "like_match ''%'' s"
  by (induction s) simp_all

lemma like_match_literal_prefix:
  assumes "set q \<inter> {CHR ''%'', CHR ''_'', CHR 0x5C} = {}"
  shows "like_match (q @ ''%'') s \<longleftrightarrow> prefix q s"
  using assms
proof (induction q arbitrary: s)
  case Nil
  show ?case using like_match_percent by simp
next
  case (Cons c q)
  then have c: "c \<noteq> CHR ''%''" "c \<noteq> CHR ''_''" "c \<noteq> CHR 0x5C"
    and q: "set q \<inter> {CHR ''%'', CHR ''_'', CHR 0x5C} = {}"
    by auto
  show ?case
  proof (cases s)
    case Nil
    with c show ?thesis by simp
  next
    case (Cons x s')
    with c Cons.IH [OF q, of s'] show ?thesis by auto
  qed
qed

lemma like_match_leading_percent:
  "like_match (CHR ''%'' # pat) s \<longleftrightarrow> (\<exists>t. suffix t s \<and> like_match pat t)"
proof (induction s)
  case Nil
  show ?case by simp
next
  case (Cons x s)
  have "like_match (CHR ''%'' # pat) (x # s) \<longleftrightarrow>
          like_match pat (x # s) \<or> like_match (CHR ''%'' # pat) s"
    by simp
  also have "\<dots> \<longleftrightarrow> like_match pat (x # s) \<or> (\<exists>t. suffix t s \<and> like_match pat t)"
    using Cons.IH by simp
  also have "\<dots> \<longleftrightarrow> (\<exists>t. suffix t (x # s) \<and> like_match pat t)"
    by (auto simp: suffix_Cons)
  finally show ?case .
qed


lemma like_match_contains:
  assumes "set q \<inter> {CHR ''%'', CHR ''_'', CHR 0x5C} = {}"
  shows "like_match (search_pattern q) s \<longleftrightarrow> sublist q s"
proof -
  have "like_match (search_pattern q) s \<longleftrightarrow> (\<exists>t. suffix t s \<and> like_match (q @ ''%'') t)"
    unfolding search_pattern_def using like_match_leading_percent [of "q @ ''%''" s] by simp
  also have "\<dots> \<longleftrightarrow> (\<exists>t. suffix t s \<and> prefix q t)"
    using like_match_literal_prefix [OF assms] by simp
  also have "\<dots> \<longleftrightarrow> sublist q s"
    by (simp add: sublist_altdef')
  finally show ?thesis .
qed

text \<open>
  C8 at the query \<open>%\<close>: the pattern is \<open>%%%\<close>, which every name matches, so the search
  returns the memory kit although neither its name nor its description contains the
  character \<open>%\<close>.
\<close>

theorem search_wildcard_not_substring:
  "map s_name (search_products table_order example_db ''%'' 20) = [''16GB DDR4 Kit''] \<and>
   \<not> sublist (lower ''%'') (lower (p_name memory_kit)) \<and>
   \<not> sublist (lower ''%'') (lower (p_description memory_kit))"
  by (simp add: search_products_def ProductFilter_default_def query_defs example_defs
        sublist_code prefix_code)


text \<open>
  For a query without \<open>%\<close>, \<open>_\<close> and backslash the pattern match is containment: in a
  store whose \<open>lower()\<close> works character by character, keeps \<open>%\<close> and turns no other
  character into \<open>%\<close>, \<open>_\<close> or a backslash, every product returned contains the query in
  its name or description, both folded by the store's \<open>lower()\<close>. The \<open>lower()\<close> of the
  locale \<open>C\<close> is of this kind.
\<close>

lemma ilike_contains:
  assumes "set q \<inter> {CHR ''%'', CHR ''_'', CHR 0x5C} = {}"
    and "lw = map g" and "g (CHR ''%'') = CHR ''%''"
    and "\<And>c. c \<notin> {CHR ''%'', CHR ''_'', CHR 0x5C} \<Longrightarrow> g c \<notin> {CHR ''%'', CHR ''_'', CHR 0x5C}"
  shows "ilike lw s (search_pattern q) \<longleftrightarrow> sublist (lw q) (lw s)"
proof -
  have "set (lw q) \<inter> {CHR ''%'', CHR ''_'', CHR 0x5C} = {}"
  proof (rule ccontr)
    assume "set (lw q) \<inter> {CHR ''%'', CHR ''_'', CHR 0x5C} \<noteq> {}"
    then obtain c where c: "c \<in> set q" and "g c \<in> {CHR ''%'', CHR ''_'', CHR 0x5C}"
      unfolding assms(2) by auto
    with assms(4) [of c] have "c \<in> {CHR ''%'', CHR ''_'', CHR 0x5C}"
      by blast
    with assms(1) c show False by blast
  qed
  moreover have "lw (search_pattern q) = search_pattern (lw q)"
    by (simp add: assms(2,3) search_pattern_def)
  ultimately show ?thesis
    by (simp only: ilike_def like_match_contains)
qed

lemma search_without_wildcards:
  assumes "s \<in> set (get_products scan db (Some f) limit offset)"
    and "f_search_query f = Some q" and "q \<noteq> []"
    and "set q \<inter> {CHR ''%'', CHR ''_'', CHR 0x5C} = {}"
    and "db_lower db = map g" and "g (CHR ''%'') = CHR ''%''"
    and "\<And>c. c \<notin> {CHR ''%'', CHR ''_'', CHR 0x5C} \<Longrightarrow> g c \<notin> {CHR ''%'', CHR ''_'', CHR 0x5C}"
  shows "\<exists>p \<in> set (products db). s = to_summary db p \<and>
           (sublist (db_lower db q) (db_lower db (p_name p)) \<or>
            sublist (db_lower db q) (db_lower db (p_description p)))"
proof -
  from assms(1) obtain p where p: "p \<in> set (products_query scan db (Some f) limit offset)"
    and s: "s = to_summary db p"
    by (auto simp: get_products_def)
  from p products_query_subset have mem: "p \<in> set (products db)"
    and w: "where_clause (db_lower db) (Some f) p"
    by blast+
  from w assms(2,3) have "ilike (db_lower db) (p_name p) (search_pattern q) \<or>
      ilike (db_lower db) (p_description p) (search_pattern q)"
    by (simp add: where_clause_def)
  moreover have "ilike (db_lower db) t (search_pattern q) \<longleftrightarrow>
      sublist (db_lower db q) (db_lower db t)" for t
    by (rule ilike_contains [OF assms(4) assms(5) assms(6)]) (rule assms(7))
  ultimately have "sublist (db_lower db q) (db_lower db (p_name p)) \<or>
      sublist (db_lower db q) (db_lower db (p_description p))"
    by simp
  with mem s show ?thesis by blast
qed

lemma ascii_lower_wildcard:
  "ascii_lower c \<in> {CHR ''%'', CHR ''_'', CHR 0x5C} \<longleftrightarrow> c \<in> {CHR ''%'', CHR ''_'', CHR 0x5C}"
proof (cases "map_of (zip ''ABCDEFGHIJKLMNOPQRSTUVWXYZ'' ''abcdefghijklmnopqrstuvwxyz'') c")
  case None
  then show ?thesis by (simp add: ascii_lower_def)
next
  case (Some d)
  then have "(c, d) \<in> set (zip ''ABCDEFGHIJKLMNOPQRSTUVWXYZ'' ''abcdefghijklmnopqrstuvwxyz'')"
    by (rule map_of_SomeD)
  then have c: "c \<in> set ''ABCDEFGHIJKLMNOPQRSTUVWXYZ''" and d: "d \<in> set ''abcdefghijklmnopqrstuvwxyz''"
    by (rule set_zip_leftD, rule set_zip_rightD)
  from c have "c \<notin> {CHR ''%'', CHR ''_'', CHR 0x5C}" by auto
  moreover from d have "d \<notin> {CHR ''%'', CHR ''_'', CHR 0x5C}" by auto
  moreover have "ascii_lower c = d" using Some by (simp add: ascii_lower_def)
  ultimately show ?thesis by simp
qed

lemma lower_charwise:
  "lower = map ascii_lower" "ascii_lower (CHR ''%'') = CHR ''%''"
  "c \<notin> {CHR ''%'', CHR ''_'', CHR 0x5C} \<Longrightarrow> ascii_lower c \<notin> {CHR ''%'', CHR ''_'', CHR 0x5C}"
proof -
  show "lower = map ascii_lower" by (rule ext) (simp add: lower_def)
  show "ascii_lower (CHR ''%'') = CHR ''%''" by (simp add: ascii_lower_def)
  show "c \<notin> {CHR ''%'', CHR ''_'', CHR 0x5C} \<Longrightarrow> ascii_lower c \<notin> {CHR ''%'', CHR ''_'', CHR 0x5C}"
    using ascii_lower_wildcard [of c] by blast
qed

subsection \<open>Inserts and commits\<close>

text \<open>The id given to a new row is not in the table.\<close>

lemma fold_max_id_ge:
  "m \<le> fold (\<lambda>i m. case i of None \<Rightarrow> m | Some k \<Rightarrow> max k m) ids (m::int)"
  "Some k \<in> set ids \<Longrightarrow> k \<le> fold (\<lambda>i m. case i of None \<Rightarrow> m | Some k \<Rightarrow> max k m) ids m"
proof (induction ids arbitrary: m)
  case Nil
  { case 1 show ?case by simp }
  { case 2 then show ?case by simp }
next
  case (Cons i ids)
  { case 1
    have "m \<le> (case i of None \<Rightarrow> m | Some k \<Rightarrow> max k m)" by (simp split: option.splits)
    also have "\<dots> \<le> fold (\<lambda>i m. case i of None \<Rightarrow> m | Some k \<Rightarrow> max k m) ids \<dots>" by (rule Cons.IH(1))
    finally show ?case by simp }
  { case 2
    show ?case
    proof (cases "i = Some k")
      case True
      have "k \<le> max k m" by simp
      also have "\<dots> \<le> fold (\<lambda>i m. case i of None \<Rightarrow> m | Some k \<Rightarrow> max k m) ids (max k m)" by (rule Cons.IH(1))
      finally show ?thesis using True by simp
    next
      case False
      with 2 have "Some k \<in> set ids" by simp
      then show ?thesis using Cons.IH(2) by simp
    qed }
qed

lemma next_id_fresh: "Some (next_id ids) \<notin> set ids"
proof
  assume "Some (next_id ids) \<in> set ids"
  then have "next_id ids \<le> fold (\<lambda>i m. case i of None \<Rightarrow> m | Some k \<Rightarrow> max k m) ids 0"
    by (rule fold_max_id_ge(2))
  then show False by (simp add: next_id_def)
qed

lemma insert_category_Inr:
  assumes "insert_category db r = Inr (r', db')"
  shows "r' = r\<lparr>cat_id := Some (next_id (map cat_id (categories db)))\<rparr>"
    and "db' = db\<lparr>categories := categories db @ [r']\<rparr>"
  using assms by (auto simp: insert_category_def Let_def split: if_splits)

lemma commit_Cons_Inr:
  assumes "commit ins (r # rs) db = Inr (rows', db')"
  obtains r' db1 rs' where "ins db r = Inr (r', db1)" and "commit ins rs db1 = Inr (rs', db')"
    and "rows' = r' # rs'"
  using assms by (auto split: sum.splits prod.splits)

lemma commit_category_Inr:
  "commit insert_category rows db = Inr (rows', db') \<Longrightarrow>
     db' = db\<lparr>categories := categories db @ rows'\<rparr> \<and>
     list_all2 (\<lambda>r r'. \<exists>i. r' = r\<lparr>cat_id := Some i\<rparr>) rows rows' \<and>
     distinct (map cat_id rows') \<and>
     set (map cat_id rows') \<inter> set (map cat_id (categories db)) = {}"
proof (induction rows arbitrary: db rows' db')
  case Nil
  then show ?case by simp
next
  case (Cons r rs)
  from Cons.prems obtain r' db1 rs' where ins: "insert_category db r = Inr (r', db1)"
    and rest: "commit insert_category rs db1 = Inr (rs', db')" and rows': "rows' = r' # rs'"
    by (rule commit_Cons_Inr)
  note r' = insert_category_Inr [OF ins]
  note IH = Cons.IH [OF rest]
  have fresh: "cat_id r' \<notin> set (map cat_id (categories db))"
    using r'(1) next_id_fresh [of "map cat_id (categories db)"] by simp
  from IH r'(2) have "db' = db\<lparr>categories := categories db @ rows'\<rparr>"
    by (simp add: rows')
  moreover from IH r'(1) have "list_all2 (\<lambda>r r'. \<exists>i. r' = r\<lparr>cat_id := Some i\<rparr>) (r # rs) rows'"
    unfolding rows' by auto
  moreover from IH r'(2) have "distinct (map cat_id rows')"
    unfolding rows' by auto
  moreover from IH r'(2) fresh have "set (map cat_id rows') \<inter> set (map cat_id (categories db)) = {}"
    unfolding rows' by auto
  ultimately show ?case by blast
qed

lemma insert_brand_Inr:
  assumes "insert_brand db r = Inr (r', db')"
  shows "r' = r\<lparr>br_id := Some (next_id (map br_id (brands db)))\<rparr>"
    and "db' = db\<lparr>brands := brands db @ [r']\<rparr>"
  using assms by (auto simp: insert_brand_def Let_def split: if_splits)

lemma commit_brand_Inr:
  "commit insert_brand rows db = Inr (rows', db') \<Longrightarrow>
     db' = db\<lparr>brands := brands db @ rows'\<rparr> \<and>
     list_all2 (\<lambda>r r'. \<exists>i. r' = r\<lparr>br_id := Some i\<rparr>) rows rows' \<and>
     distinct (map br_id rows') \<and>
     set (map br_id rows') \<inter> set (map br_id (brands db)) = {}"
proof (induction rows arbitrary: db rows' db')
  case Nil
  then show ?case by simp
next
  case (Cons r rs)
  from Cons.prems obtain r' db1 rs' where ins: "insert_brand db r = Inr (r', db1)"
    and rest: "commit insert_brand rs db1 = Inr (rs', db')" and rows': "rows' = r' # rs'"
    by (rule commit_Cons_Inr)
  note r' = insert_brand_Inr [OF ins]
  note IH = Cons.IH [OF rest]
  have fresh: "br_id r' \<notin> set (map br_id (brands db))"
    using r'(1) next_id_fresh [of "map br_id (brands db)"] by simp
  from IH r'(2) have "db' = db\<lparr>brands := brands db @ rows'\<rparr>"
    by (simp add: rows')
  moreover from IH r'(1) have "list_all2 (\<lambda>r r'. \<exists>i. r' = r\<lparr>br_id := Some i\<rparr>) (r # rs) rows'"
    unfolding rows' by auto
  moreover from IH r'(2) have "distinct (map br_id rows')"
    unfolding rows' by auto
  moreover from IH r'(2) fresh have "set (map br_id rows') \<inter> set (map br_id (brands db)) = {}"
    unfolding rows' by auto
  ultimately show ?case by blast
qed

lemma insert_product_Inr:
  assumes "insert_product db r = Inr (r', db')"
  shows "r' = r\<lparr>p_id := Some (next_id (map p_id (products db)))\<rparr>"
    and "db' = db\<lparr>products := products db @ [r']\<rparr>"
  using assms by (auto simp: insert_product_def Let_def split: if_splits)

lemma commit_product_Inr:
  "commit insert_product rows db = Inr (rows', db') \<Longrightarrow>
     db' = db\<lparr>products := products db @ rows'\<rparr> \<and>
     list_all2 (\<lambda>r r'. \<exists>i. r' = r\<lparr>p_id := Some i\<rparr>) rows rows' \<and>
     distinct (map p_id rows') \<and>
     set (map p_id rows') \<inter> set (map p_id (products db)) = {}"
proof (induction rows arbitrary: db rows' db')
  case Nil
  then show ?case by simp
next
  case (Cons r rs)
  from Cons.prems obtain r' db1 rs' where ins: "insert_product db r = Inr (r', db1)"
    and rest: "commit insert_product rs db1 = Inr (rs', db')" and rows': "rows' = r' # rs'"
    by (rule commit_Cons_Inr)
  note r' = insert_product_Inr [OF ins]
  note IH = Cons.IH [OF rest]
  have fresh: "p_id r' \<notin> set (map p_id (products db))"
    using r'(1) next_id_fresh [of "map p_id (products db)"] by simp
  from IH r'(2) have "db' = db\<lparr>products := products db @ rows'\<rparr>"
    by (simp add: rows')
  moreover from IH r'(1) have "list_all2 (\<lambda>r r'. \<exists>i. r' = r\<lparr>p_id := Some i\<rparr>) (r # rs) rows'"
    unfolding rows' by auto
  moreover from IH r'(2) have "distinct (map p_id rows')"
    unfolding rows' by auto
  moreover from IH r'(2) fresh have "set (map p_id rows') \<inter> set (map p_id (products db)) = {}"
    unfolding rows' by auto
  ultimately show ?case by blast
qed

lemma insert_image_Inr:
  assumes "insert_image db r = Inr (r', db')"
  shows "r' = r\<lparr>img_id := Some (next_id (map img_id (product_images db)))\<rparr>"
    and "db' = db\<lparr>product_images := product_images db @ [r']\<rparr>"
  using assms by (auto simp: insert_image_def Let_def split: if_splits)

lemma commit_image_Inr:
  "commit insert_image rows db = Inr (rows', db') \<Longrightarrow>
     db' = db\<lparr>product_images := product_images db @ rows'\<rparr> \<and>
     list_all2 (\<lambda>r r'. \<exists>i. r' = r\<lparr>img_id := Some i\<rparr>) rows rows'"
proof (induction rows arbitrary: db rows' db')
  case Nil
  then show ?case by simp
next
  case (Cons r rs)
  from Cons.prems obtain r' db1 rs' where ins: "insert_image db r = Inr (r', db1)"
    and rest: "commit insert_image rs db1 = Inr (rs', db')" and rows': "rows' = r' # rs'"
    by (rule commit_Cons_Inr)
  note r' = insert_image_Inr [OF ins]
  note IH = Cons.IH [OF rest]
  from IH r'(2) have "db' = db\<lparr>product_images := product_images db @ rows'\<rparr>"
    by (simp add: rows')
  moreover from IH r'(1) have "list_all2 (\<lambda>r r'. \<exists>i. r' = r\<lparr>img_id := Some i\<rparr>) (r # rs) rows'"
    unfolding rows' by auto
  ultimately show ?case by blast
qed

text \<open>When a commit succeeds.\<close>

lemma commit_category_succeeds_iff:
  assumes "\<forall>r \<in> set rows. cat_parent_id r = None"
  shows "(\<exists>rows' db'. commit insert_category rows db = Inr (rows', db')) \<longleftrightarrow>
           distinct (map cat_name rows) \<and> distinct (map cat_slug rows) \<and>
           set (map cat_name rows) \<inter> set (map cat_name (categories db)) = {} \<and>
           set (map cat_slug rows) \<inter> set (map cat_slug (categories db)) = {}"
  using assms
proof (induction rows arbitrary: db)
  case Nil
  show ?case by simp
next
  case (Cons r rs)
  then have par: "cat_parent_id r = None" and rs: "\<forall>r \<in> set rs. cat_parent_id r = None"
    by simp_all
  show ?case
  proof (cases "cat_name r \<in> set (map cat_name (categories db)) \<or>
                cat_slug r \<in> set (map cat_slug (categories db))")
    case True
    then have "insert_category db r = Inl IntegrityError"
      by (auto simp: insert_category_def)
    with True show ?thesis by auto
  next
    case False
    let ?r' = "r\<lparr>cat_id := Some (next_id (map cat_id (categories db)))\<rparr>"
    let ?db1 = "db\<lparr>categories := categories db @ [?r']\<rparr>"
    from False par have ins: "insert_category db r = Inr (?r', ?db1)"
      by (simp add: insert_category_def Let_def)
    have "(\<exists>rows' db'. commit insert_category (r # rs) db = Inr (rows', db')) \<longleftrightarrow>
          (\<exists>rows' db'. commit insert_category rs ?db1 = Inr (rows', db'))"
      using ins by (auto split: sum.splits)
    also have "\<dots> \<longleftrightarrow> distinct (map cat_name rs) \<and> distinct (map cat_slug rs) \<and>
           set (map cat_name rs) \<inter> set (map cat_name (categories ?db1)) = {} \<and>
           set (map cat_slug rs) \<inter> set (map cat_slug (categories ?db1)) = {}"
      by (rule Cons.IH [OF rs])
    also have "\<dots> \<longleftrightarrow> distinct (map cat_name (r # rs)) \<and> distinct (map cat_slug (r # rs)) \<and>
           set (map cat_name (r # rs)) \<inter> set (map cat_name (categories db)) = {} \<and>
           set (map cat_slug (r # rs)) \<inter> set (map cat_slug (categories db)) = {}"
      using False by auto
    finally show ?thesis .
  qed
qed


lemma commit_brand_succeeds_iff:
  "(\<exists>rows' db'. commit insert_brand rows db = Inr (rows', db')) \<longleftrightarrow>
     distinct (map br_name rows) \<and> set (map br_name rows) \<inter> set (map br_name (brands db)) = {}"
proof (induction rows arbitrary: db)
  case Nil
  show ?case by simp
next
  case (Cons r rs)
  show ?case
  proof (cases "br_name r \<in> set (map br_name (brands db))")
    case True
    then have "insert_brand db r = Inl IntegrityError"
      by (auto simp: insert_brand_def)
    with True show ?thesis by auto
  next
    case False
    let ?r' = "r\<lparr>br_id := Some (next_id (map br_id (brands db)))\<rparr>"
    let ?db1 = "db\<lparr>brands := brands db @ [?r']\<rparr>"
    from False have ins: "insert_brand db r = Inr (?r', ?db1)"
      by (simp add: insert_brand_def Let_def)
    have "(\<exists>rows' db'. commit insert_brand (r # rs) db = Inr (rows', db')) \<longleftrightarrow>
          (\<exists>rows' db'. commit insert_brand rs ?db1 = Inr (rows', db'))"
      using ins by (auto split: sum.splits)
    also have "\<dots> \<longleftrightarrow> distinct (map br_name rs) \<and>
           set (map br_name rs) \<inter> set (map br_name (brands ?db1)) = {}"
      by (rule Cons.IH)
    also have "\<dots> \<longleftrightarrow> distinct (map br_name (r # rs)) \<and>
           set (map br_name (r # rs)) \<inter> set (map br_name (brands db)) = {}"
      using False by auto
    finally show ?thesis .
  qed
qed

lemma commit_product_succeeds:
  assumes "\<forall>r \<in> set rows.
             (p_category_id r = None \<or> p_category_id r \<in> set (map cat_id (categories db))) \<and>
             (p_brand_id r = None \<or> p_brand_id r \<in> set (map br_id (brands db)))"
    and "distinct (map p_sku rows)" and "distinct (map p_slug rows)"
    and "set (map p_sku rows) \<inter> set (map p_sku (products db)) = {}"
    and "set (map p_slug rows) \<inter> set (map p_slug (products db)) = {}"
  shows "\<exists>rows' db'. commit insert_product rows db = Inr (rows', db')"
  using assms
proof (induction rows arbitrary: db)
  case Nil
  show ?case by simp
next
  case (Cons r rs)
  let ?r' = "r\<lparr>p_id := Some (next_id (map p_id (products db)))\<rparr>"
  let ?db1 = "db\<lparr>products := products db @ [?r']\<rparr>"
  from Cons.prems have ins: "insert_product db r = Inr (?r', ?db1)"
    by (auto simp: insert_product_def Let_def)
  have "\<exists>rows' db'. commit insert_product rs ?db1 = Inr (rows', db')"
  proof (rule Cons.IH)
    show "\<forall>r \<in> set rs.
             (p_category_id r = None \<or> p_category_id r \<in> set (map cat_id (categories ?db1))) \<and>
             (p_brand_id r = None \<or> p_brand_id r \<in> set (map br_id (brands ?db1)))"
      using Cons.prems(1) by simp
    show "distinct (map p_sku rs)" "distinct (map p_slug rs)"
      using Cons.prems(2,3) by simp_all
    show "set (map p_sku rs) \<inter> set (map p_sku (products ?db1)) = {}"
      using Cons.prems(2,4) by auto
    show "set (map p_slug rs) \<inter> set (map p_slug (products ?db1)) = {}"
      using Cons.prems(3,5) by auto
  qed
  with ins show ?case by auto
qed

lemma commit_image_succeeds:
  assumes "\<forall>r \<in> set rows. img_product_id r \<noteq> None \<and> img_product_id r \<in> set (map p_id (products db))"
  shows "\<exists>rows' db'. commit insert_image rows db = Inr (rows', db')"
  using assms
proof (induction rows arbitrary: db)
  case Nil
  show ?case by simp
next
  case (Cons r rs)
  let ?r' = "r\<lparr>img_id := Some (next_id (map img_id (product_images db)))\<rparr>"
  let ?db1 = "db\<lparr>product_images := product_images db @ [?r']\<rparr>"
  from Cons.prems have ins: "insert_image db r = Inr (?r', ?db1)"
    by (auto simp: insert_image_def Let_def)
  have "\<exists>rows' db'. commit insert_image rs ?db1 = Inr (rows', db')"
    by (rule Cons.IH) (use Cons.prems in simp)
  with ins show ?case by auto
qed

subsection \<open>The rows of the seeder\<close>

lemma category_rows_keys:
  "map cat_name (category_rows clock) = map fst cat_data_list"
  "map cat_slug (category_rows clock) = map (fst \<circ> snd) cat_data_list"
  "\<forall>r \<in> set (category_rows clock). cat_parent_id r = None"
  "length (category_rows clock) = 8"
  by (simp_all add: category_rows_def cat_data_list_def new_Category_def)

lemma cat_data_list_distinct:
  "distinct (map fst cat_data_list)" "distinct (map (fst \<circ> snd) cat_data_list)"
  by (simp_all add: cat_data_list_def)

lemma brand_rows_keys:
  "map br_name (brand_rows clock) = map fst brand_data_list"
  "length (brand_rows clock) = 8"
  by (simp_all add: brand_rows_def brand_data_list_def new_Brand_def)

lemma brand_data_list_distinct: "distinct (map fst brand_data_list)"
  by (simp add: brand_data_list_def)

lemma product_rows_keys:
  "map p_sku (product_rows clock cats brs) =
     [''RTX4060-8G'', ''R5-5600X'', ''DDR4-3200-16G'', ''NVME-1TB-GAME'', ''B550-GAMING'',
      ''PSU-650W-GOLD'', ''CASE-MIDTOWER'', ''KB-MECH-RGB'']"
  "map p_slug (product_rows clock cats brs) =
     [''rtx-4060-gaming-graphics-card'', ''ryzen-5-5600x-processor'',
      ''16gb-ddr4-3200-gaming-memory'', ''1tb-nvme-ssd-gaming-drive'', ''b550-gaming-motherboard'',
      ''650w-80plus-gold-gaming-psu'', ''mid-tower-gaming-case'', ''mechanical-gaming-keyboard'']"
  "map p_category_id (product_rows clock cats brs) = map (\<lambda>i. cat_id (cats ! i)) [0, 1, 2, 3, 4, 5, 6, 7]"
  "map p_brand_id (product_rows clock cats brs) = map (\<lambda>i. br_id (brs ! i)) [0, 1, 3, 6, 4, 3, 5, 3]"
  "length (product_rows clock cats brs) = 8"
  by (simp_all add: product_rows_def products_data_def new_Product_def)

lemma image_rows_keys:
  "map img_product_id (image_rows clock prods) = map (\<lambda>i. p_id (prods ! i)) [0, 1, 2, 3, 4, 5, 6, 7]"
  "map img_is_primary (image_rows clock prods) = replicate 8 True"
  "length (image_rows clock prods) = 8"
  by (simp_all add: image_rows_def sample_images_def new_ProductImage_def numeral_eq_Suc)

lemma product_rows_listing:
  "map p_name (filter (where_clause lw (Some in_stock_max_200)) (product_rows clock cats brs)) =
     [''Ryzen 5 5600X Processor'', ''16GB DDR4-3200 Gaming Memory Kit'',
      ''1TB NVMe SSD Gaming Drive'', ''B550 Gaming Motherboard'', ''650W 80+ Gold Gaming PSU'',
      ''Mid-Tower Gaming Case'', ''Mechanical Gaming Keyboard'']"
  by (simp add: product_rows_def products_data_def new_Product_def where_clause_def
        in_stock_max_200_def ProductFilter_default_def)


text \<open>
  On a store without products, in which no category has a name or slug of the seeder and
  no brand has a name of the seeder, every commit of the seeder succeeds; the stored rows
  are the rows built by the loops, with fresh ids.
\<close>

lemma seed_result:
  assumes np: "products db = []"
    and cn: "set (map cat_name (categories db)) \<inter> set (map fst cat_data_list) = {}"
    and cs: "set (map cat_slug (categories db)) \<inter> set (map (fst \<circ> snd) cat_data_list) = {}"
    and bn: "set (map br_name (brands db)) \<inter> set (map fst brand_data_list) = {}"
  shows "\<exists>cats brs prods imgs.
     seed_sample_data clock db =
       (Inr (), db\<lparr>categories := categories db @ cats, brands := brands db @ brs,
                   products := prods, product_images := product_images db @ imgs\<rparr>) \<and>
     list_all2 (\<lambda>r r'. \<exists>i. r' = r\<lparr>cat_id := Some i\<rparr>) (category_rows clock) cats \<and>
     distinct (map cat_id cats) \<and>
     set (map cat_id cats) \<inter> set (map cat_id (categories db)) = {} \<and>
     list_all2 (\<lambda>r r'. \<exists>i. r' = r\<lparr>br_id := Some i\<rparr>) (brand_rows clock) brs \<and>
     distinct (map br_id brs) \<and>
     set (map br_id brs) \<inter> set (map br_id (brands db)) = {} \<and>
     list_all2 (\<lambda>r r'. \<exists>i. r' = r\<lparr>p_id := Some i\<rparr>) (product_rows clock cats brs) prods \<and>
     distinct (map p_id prods) \<and>
     list_all2 (\<lambda>r r'. \<exists>i. r' = r\<lparr>img_id := Some i\<rparr>) (image_rows clock prods) imgs"
proof -
  \<comment> \<open>categories\<close>
  have "\<exists>rows' db'. commit insert_category (category_rows clock) db = Inr (rows', db')"
    using cn cs cat_data_list_distinct
    by (subst commit_category_succeeds_iff) (auto simp: category_rows_keys)
  then obtain cats db1 where c1: "commit insert_category (category_rows clock) db = Inr (cats, db1)"
    by blast
  note C = commit_category_Inr [OF c1]
  from C have db1: "db1 = db\<lparr>categories := categories db @ cats\<rparr>" by blast
  from C have lc: "list_all2 (\<lambda>r r'. \<exists>i. r' = r\<lparr>cat_id := Some i\<rparr>) (category_rows clock) cats" by blast
  then have len_cats: "length cats = 8"
    using list_all2_lengthD [OF lc] by (simp add: category_rows_keys)
  \<comment> \<open>brands\<close>
  have "\<exists>rows' db'. commit insert_brand (brand_rows clock) db1 = Inr (rows', db')"
    using bn brand_data_list_distinct
    by (subst commit_brand_succeeds_iff) (auto simp: brand_rows_keys db1)
  then obtain brs db2 where c2: "commit insert_brand (brand_rows clock) db1 = Inr (brs, db2)"
    by blast
  note B = commit_brand_Inr [OF c2]
  from B have db2: "db2 = db1\<lparr>brands := brands db1 @ brs\<rparr>" by blast
  from B have lb: "list_all2 (\<lambda>r r'. \<exists>i. r' = r\<lparr>br_id := Some i\<rparr>) (brand_rows clock) brs" by blast
  then have len_brs: "length brs = 8"
    using list_all2_lengthD [OF lb] by (simp add: brand_rows_keys)
  \<comment> \<open>products\<close>
  have fk: "\<forall>r \<in> set (product_rows clock cats brs).
             (p_category_id r = None \<or> p_category_id r \<in> set (map cat_id (categories db2))) \<and>
             (p_brand_id r = None \<or> p_brand_id r \<in> set (map br_id (brands db2)))"
  proof
    fix r assume r: "r \<in> set (product_rows clock cats brs)"
    then have "p_category_id r \<in> set (map p_category_id (product_rows clock cats brs))"
      and "p_brand_id r \<in> set (map p_brand_id (product_rows clock cats brs))"
      by simp_all
    then have "p_category_id r \<in> cat_id ` set cats" and "p_brand_id r \<in> br_id ` set brs"
      unfolding product_rows_keys using len_cats len_brs by auto
    then show "(p_category_id r = None \<or> p_category_id r \<in> set (map cat_id (categories db2))) \<and>
             (p_brand_id r = None \<or> p_brand_id r \<in> set (map br_id (brands db2)))"
      by (auto simp: db2 db1)
  qed
  have "\<exists>rows' db'. commit insert_product (product_rows clock cats brs) db2 = Inr (rows', db')"
    using fk
  proof (rule commit_product_succeeds)
    show "distinct (map p_sku (product_rows clock cats brs))"
      "distinct (map p_slug (product_rows clock cats brs))"
      unfolding product_rows_keys by simp_all
    show "set (map p_sku (product_rows clock cats brs)) \<inter> set (map p_sku (products db2)) = {}"
      "set (map p_slug (product_rows clock cats brs)) \<inter> set (map p_slug (products db2)) = {}"
      by (simp_all add: db2 db1 np)
  qed
  then obtain prods db3 where c3: "commit insert_product (product_rows clock cats brs) db2 = Inr (prods, db3)"
    by blast
  note P = commit_product_Inr [OF c3]
  from P have db3: "db3 = db2\<lparr>products := products db2 @ prods\<rparr>" by blast
  from P have lp: "list_all2 (\<lambda>r r'. \<exists>i. r' = r\<lparr>p_id := Some i\<rparr>) (product_rows clock cats brs) prods" by blast
  then have len_prods: "length prods = 8"
    using list_all2_lengthD [OF lp] by (simp add: product_rows_keys)
  have some: "\<forall>p \<in> set prods. p_id p \<noteq> None"
  proof
    fix p assume "p \<in> set prods"
    then obtain i where "i < length prods" and "prods ! i = p"
      by (auto simp: in_set_conv_nth)
    with lp obtain k where "p = (product_rows clock cats brs ! i)\<lparr>p_id := Some k\<rparr>"
      by (auto simp: list_all2_conv_all_nth)
    then show "p_id p \<noteq> None" by simp
  qed
  \<comment> \<open>images\<close>
  have "\<forall>r \<in> set (image_rows clock prods).
          img_product_id r \<noteq> None \<and> img_product_id r \<in> set (map p_id (products db3))"
  proof
    fix r assume "r \<in> set (image_rows clock prods)"
    then have "img_product_id r \<in> set (map img_product_id (image_rows clock prods))"
      by simp
    then have "img_product_id r \<in> p_id ` set prods"
      unfolding image_rows_keys using len_prods by auto
    with some show "img_product_id r \<noteq> None \<and> img_product_id r \<in> set (map p_id (products db3))"
      by (auto simp: db3)
  qed
  then have "\<exists>rows' db'. commit insert_image (image_rows clock prods) db3 = Inr (rows', db')"
    by (rule commit_image_succeeds)
  then obtain imgs db4 where c4: "commit insert_image (image_rows clock prods) db3 = Inr (imgs, db4)"
    by blast
  note I = commit_image_Inr [OF c4]
  from I have db4: "db4 = db3\<lparr>product_images := product_images db3 @ imgs\<rparr>" by blast
  have "seed_sample_data clock db = (Inr (), db4)"
    by (simp add: seed_sample_data_def np c1 c2 c3 c4)
  also have "db4 = db\<lparr>categories := categories db @ cats, brands := brands db @ brs,
                   products := prods, product_images := product_images db @ imgs\<rparr>"
    by (simp add: db4 db3 db2 db1 np)
  finally have "seed_sample_data clock db =
       (Inr (), db\<lparr>categories := categories db @ cats, brands := brands db @ brs,
                   products := prods, product_images := product_images db @ imgs\<rparr>)" .
  moreover have "set (map br_id brs) \<inter> set (map br_id (brands db)) = {}"
    using B by (simp add: db1)
  moreover have "distinct (map p_id prods)" using P by blast
  moreover have "distinct (map br_id brs)" using B by blast
  moreover have "distinct (map cat_id cats)"
    and "set (map cat_id cats) \<inter> set (map cat_id (categories db)) = {}" using C by blast+
  moreover have "list_all2 (\<lambda>r r'. \<exists>i. r' = r\<lparr>img_id := Some i\<rparr>) (image_rows clock prods) imgs"
    using I by blast
  ultimately show ?thesis using lc lb lp by blast
qed


lemma list_all2_filter_map_eq:
  assumes "list_all2 R xs ys" and "\<And>x y. R x y \<Longrightarrow> f y = f x \<and> P y = P x"
  shows "map f (filter P ys) = map f (filter P xs)"
  using assms by (induction rule: list_all2_induct) auto



subsection \<open>What the seeder inserts\<close>




subsection \<open>The listing of the seeded store\<close>

lemma where_clause_ignores_id:
  "where_clause lw filters (p\<lparr>p_id := x\<rparr>) = where_clause lw filters p"
  by (simp add: where_clause_def cong: option.case_cong if_cong)

lemma seed_products_listing:
  "map p_name (filter (where_clause lw (Some in_stock_max_200))
       (products (snd (seed_sample_data clock empty_db)))) =
     [''Ryzen 5 5600X Processor'', ''16GB DDR4-3200 Gaming Memory Kit'',
      ''1TB NVMe SSD Gaming Drive'', ''B550 Gaming Motherboard'', ''650W 80+ Gold Gaming PSU'',
      ''Mid-Tower Gaming Case'', ''Mechanical Gaming Keyboard'']"
proof -
  have "products empty_db = []"
    and "set (map cat_name (categories empty_db)) \<inter> set (map fst cat_data_list) = {}"
    and "set (map cat_slug (categories empty_db)) \<inter> set (map (fst \<circ> snd) cat_data_list) = {}"
    and "set (map br_name (brands empty_db)) \<inter> set (map fst brand_data_list) = {}"
    by (simp_all add: empty_db_def)
  from seed_result [OF this, of clock] obtain cats brs prods imgs where
    res: "seed_sample_data clock empty_db =
       (Inr (), empty_db\<lparr>categories := categories empty_db @ cats, brands := brands empty_db @ brs,
                   products := prods, product_images := product_images empty_db @ imgs\<rparr>)"
    and lp: "list_all2 (\<lambda>r r'. \<exists>i. r' = r\<lparr>p_id := Some i\<rparr>) (product_rows clock cats brs) prods"
    by blast
  from res have "products (snd (seed_sample_data clock empty_db)) = prods"
    by simp
  moreover have "map p_name (filter (where_clause lw (Some in_stock_max_200)) prods) =
      map p_name (filter (where_clause lw (Some in_stock_max_200)) (product_rows clock cats brs))"
    using lp by (rule list_all2_filter_map_eq) (auto simp: where_clause_ignores_id)
  ultimately show ?thesis
    by (simp only: product_rows_listing)
qed

lemma get_products_whole_listing:
  assumes "length (filter (where_clause (db_lower db) filters) (products db)) \<le> limit"
  shows "set (map s_name (get_products scan db filters limit 0)) =
           set (map p_name (filter (where_clause (db_lower db) filters) (products db)))"
    and "length (get_products scan db filters limit 0) =
           length (filter (where_clause (db_lower db) filters) (products db))"
proof -
  let ?rows = "filter (where_clause (db_lower db) filters) (products db)"
  have len: "length (order_by_created_at_desc scan ?rows) = length ?rows"
    by (simp add: order_by_created_at_desc_def)
  with assms have q: "products_query scan db filters limit 0 = order_by_created_at_desc scan ?rows"
    by (simp add: products_query_def)
  have "map s_name (get_products scan db filters limit 0) =
          map p_name (order_by_created_at_desc scan ?rows)"
    by (simp add: get_products_def q to_summary_def)
  then show "set (map s_name (get_products scan db filters limit 0)) = set (map p_name ?rows)"
    by (simp add: order_by_created_at_desc_def)
  show "length (get_products scan db filters limit 0) = length ?rows"
    by (simp add: get_products_def q len)
qed

text \<open>
  C4, as stated, fails: the processor (199.99, 25 in stock) passes \<open>price \<le> 200.00\<close>
  and \<open>stock_quantity > 0\<close>, so the listing of the seeded store has seven products and
  the processor is one of them.
\<close>

theorem seeded_listing_counterexample:
  "''Ryzen 5 5600X Processor'' \<in>
     set (map s_name (get_products table_order seeded_db (Some in_stock_max_200) 20 0)) \<and>
   length (get_products table_order seeded_db (Some in_stock_max_200) 20 0) = 7"
proof -
  have len: "length (filter (where_clause (db_lower seeded_db) (Some in_stock_max_200)) (products seeded_db)) = 7"
    using arg_cong [OF seed_products_listing [where clock = seed_clock and lw = "db_lower seeded_db"], of length]
    by (simp add: seeded_db_def)
  then have le: "length (filter (where_clause (db_lower seeded_db) (Some in_stock_max_200)) (products seeded_db)) \<le> 20"
    by simp
  have "set (map s_name (get_products table_order seeded_db (Some in_stock_max_200) 20 0)) =
        set (map p_name (filter (where_clause (db_lower seeded_db) (Some in_stock_max_200)) (products seeded_db)))"
    using le by (rule get_products_whole_listing)
  moreover have "''Ryzen 5 5600X Processor'' \<in>
        set (map p_name (filter (where_clause (db_lower seeded_db) (Some in_stock_max_200)) (products seeded_db)))"
    unfolding seeded_db_def seed_products_listing by simp
  moreover have "length (get_products table_order seeded_db (Some in_stock_max_200) 20 0) = 7"
    using get_products_whole_listing(2) [OF le] len by simp
  ultimately show ?thesis by simp
qed

text \<open>
  C4, amended. After seeding an empty store, \<open>get_products\<close> with \<open>in_stock_only=true\<close>
  and \<open>max_price=200.00\<close> (limit 20, offset 0) returns exactly seven products: the
  processor, the DDR4 memory kit, the SSD, the motherboard, the PSU, the case and the
  keyboard; only the graphics card (299.99) is excluded. This holds whatever the clock
  read during seeding and however the store orders tied rows.
\<close>

theorem seeded_listing:
  "set (map s_name (get_products scan (snd (seed_sample_data clock empty_db))
          (Some in_stock_max_200) 20 0)) =
     {''Ryzen 5 5600X Processor'', ''16GB DDR4-3200 Gaming Memory Kit'',
      ''1TB NVMe SSD Gaming Drive'', ''B550 Gaming Motherboard'', ''650W 80+ Gold Gaming PSU'',
      ''Mid-Tower Gaming Case'', ''Mechanical Gaming Keyboard''} \<and>
   length (get_products scan (snd (seed_sample_data clock empty_db))
          (Some in_stock_max_200) 20 0) = 7 \<and>
   ''RTX 4060 Gaming Graphics Card'' \<notin>
     set (map s_name (get_products scan (snd (seed_sample_data clock empty_db))
          (Some in_stock_max_200) 20 0))"
proof -
  let ?db = "snd (seed_sample_data clock empty_db)"
  have len: "length (filter (where_clause (db_lower ?db) (Some in_stock_max_200)) (products ?db)) = 7"
    using arg_cong [OF seed_products_listing [where clock = clock and lw = "db_lower ?db"], of length] by simp
  then have le: "length (filter (where_clause (db_lower ?db) (Some in_stock_max_200)) (products ?db)) \<le> 20"
    by simp
  have "set (map s_name (get_products scan ?db (Some in_stock_max_200) 20 0)) =
        set (map p_name (filter (where_clause (db_lower ?db) (Some in_stock_max_200)) (products ?db)))"
    using le by (rule get_products_whole_listing)
  then have names: "set (map s_name (get_products scan ?db (Some in_stock_max_200) 20 0)) =
     {''Ryzen 5 5600X Processor'', ''16GB DDR4-3200 Gaming Memory Kit'',
      ''1TB NVMe SSD Gaming Drive'', ''B550 Gaming Motherboard'', ''650W 80+ Gold Gaming PSU'',
      ''Mid-Tower Gaming Case'', ''Mechanical Gaming Keyboard''}"
    unfolding seed_products_listing by simp
  have "length (get_products scan ?db (Some in_stock_max_200) 20 0) = 7"
    using get_products_whole_listing(2) [OF le] len by simp
  moreover have "''RTX 4060 Gaming Graphics Card'' \<notin>
     set (map s_name (get_products scan ?db (Some in_stock_max_200) 20 0))"
    unfolding names by simp
  ultimately show ?thesis using names by blast
qed

theorem seeded_listing_witness:
  "set (map s_name (get_products descending_id seeded_db (Some in_stock_max_200) 20 0)) =
     {''Ryzen 5 5600X Processor'', ''16GB DDR4-3200 Gaming Memory Kit'',
      ''1TB NVMe SSD Gaming Drive'', ''B550 Gaming Motherboard'', ''650W 80+ Gold Gaming PSU'',
      ''Mid-Tower Gaming Case'', ''Mechanical Gaming Keyboard''}"
  using seeded_listing [of descending_id seed_clock] by (simp add: seeded_db_def)

subsection \<open>Seeding twice\<close>








end
